(* ===== verification/Prelude.thy ===== *)
theory Prelude
  imports Complex_Main "HOL-Library.AList" "HOL-Library.Sublist"
begin

text \<open>
  Shared vocabulary of the development: decimal printing and parsing of natural numbers
  (Python's \<open>str(int)\<close> and \<open>"%02d"\<close>, and the digit parser of \<open>fromisoformat\<close>),
  ASCII case folding, the byte-wise text order of the store, and the lemmas on association
  lists (Python dicts, JSON objects, table rows) that the components share.
\<close>

named_theorems digit_simps "evaluation of decimal digit strings"

section \<open>Decimal digits\<close>

fun nat_digits :: "nat \<Rightarrow> nat list" where
  "nat_digits n = (if n < 10 then [n] else nat_digits (n div 10) @ [n mod 10])"

declare nat_digits.simps [simp del]

definition digit_char :: "nat \<Rightarrow> char" where
  "digit_char d = char_of (48 + d)"

definition nat_str :: "nat \<Rightarrow> string" where
  "nat_str n = map digit_char (nat_digits n)"

text \<open>Python's \<open>str(i)\<close> for an \<open>int\<close>.\<close>

definition int_str :: "int \<Rightarrow> string" where
  "int_str i = (if i < 0 then CHR ''-'' # nat_str (nat (- i)) else nat_str (nat i))"

text \<open>Python's \<open>"%0*d" % (w, n)\<close>: zero-padded on the left to width \<open>w\<close>.\<close>

definition pad_dec :: "nat \<Rightarrow> nat \<Rightarrow> string" where
  "pad_dec w n = replicate (w - length (nat_str n)) (CHR ''0'') @ nat_str n"

definition is_digit :: "char \<Rightarrow> bool" where
  "is_digit c \<longleftrightarrow> (48::nat) \<le> of_char c \<and> of_char c \<le> (57::nat)"

definition digit_val :: "char \<Rightarrow> nat" where
  "digit_val c = of_char c - 48"

text \<open>The value of a non-empty string of ASCII digits; \<open>None\<close> if a character is not a digit.\<close>

fun digits_val :: "nat \<Rightarrow> string \<Rightarrow> nat option" where
  "digits_val acc [] = Some acc"
| "digits_val acc (c # cs) = (if is_digit c then digits_val (10 * acc + digit_val c) cs else None)"

definition parse_nat :: "string \<Rightarrow> nat option" where
  "parse_nat s = (if s = [] then None else digits_val 0 s)"

text \<open>Python's \<open>sep.join(xs)\<close>.\<close>

fun str_join :: "string \<Rightarrow> string list \<Rightarrow> string" where
  "str_join sep [] = []"
| "str_join sep [x] = x"
| "str_join sep (x # xs) = x @ sep @ str_join sep xs"

section \<open>Case folding and text order\<close>

definition lower_char :: "char \<Rightarrow> char" where
  "lower_char c = (if (65::nat) \<le> of_char c \<and> of_char c \<le> (90::nat) then char_of (of_char c + (32::nat)) else c)"

definition lower :: "string \<Rightarrow> string" where
  "lower s = map lower_char s"

text \<open>Byte-wise comparison of texts, the order of the store's \<open>C\<close> collation.\<close>

fun str_le :: "string \<Rightarrow> string \<Rightarrow> bool" where
  "str_le [] ys = True"
| "str_le (x # xs) [] = False"
| "str_le (x # xs) (y # ys) =
     (if (of_char x :: nat) < of_char y then True
      else if x = y then str_le xs ys else False)"

section \<open>Lemmas on digits\<close>

lemma nat_digits_bound: "d \<in> set (nat_digits n) \<Longrightarrow> d < 10"
proof (induction n rule: nat_digits.induct)
  case (1 n)
  then show ?case
    by (cases "n < 10") (auto simp: nat_digits.simps [of n])
qed

lemma nat_digits_nonempty [simp]: "nat_digits n \<noteq> []"
  by (subst nat_digits.simps) simp

lemma is_digit_digit_char [simp]: "d < 10 \<Longrightarrow> is_digit (digit_char d)"
  by (simp add: is_digit_def digit_char_def)

lemma digit_val_digit_char [simp]: "d < 10 \<Longrightarrow> digit_val (digit_char d) = d"
  by (simp add: digit_val_def digit_char_def)

lemma digits_val_append:
  "digits_val acc (xs @ ys) = (case digits_val acc xs of None \<Rightarrow> None | Some a \<Rightarrow> digits_val a ys)"
  by (induction xs arbitrary: acc) auto

text \<open>Reading the digits of \<open>n\<close> after an accumulator \<open>a\<close> shifts \<open>a\<close> by the length.\<close>

lemma digits_val_nat_digits:
  "digits_val a (map digit_char (nat_digits n)) = Some (a * 10 ^ length (nat_digits n) + n)"
proof (induction n arbitrary: a rule: nat_digits.induct)
  case (1 n)
  show ?case
  proof (cases "n < 10")
    case True
    then show ?thesis by (simp add: nat_digits.simps [of n])
  next
    case False
    then have "digits_val a (map digit_char (nat_digits n)) =
        digits_val a (map digit_char (nat_digits (n div 10)) @ [digit_char (n mod 10)])"
      by (simp add: nat_digits.simps [of n])
    also have "\<dots> = Some (10 * (a * 10 ^ length (nat_digits (n div 10)) + n div 10) + n mod 10)"
      using "1.IH" False by (simp add: digits_val_append)
    also have "\<dots> = Some (a * 10 ^ length (nat_digits n) + n)"
      using False by (simp add: nat_digits.simps [of n] algebra_simps)
    finally show ?thesis .
  qed
qed

lemma digits_val_zeros [simp]: "digits_val 0 (replicate k (CHR ''0'') @ xs) = digits_val 0 xs"
  by (induction k) (auto simp: is_digit_def digit_val_def)

lemma nat_str_nonempty [simp]: "nat_str n \<noteq> []"
  by (simp add: nat_str_def)

lemma parse_nat_nat_str [digit_simps]: "parse_nat (nat_str n) = Some n"
  using digits_val_nat_digits [of 0 n] by (simp add: parse_nat_def nat_str_def)

lemma parse_nat_pad_dec [digit_simps]: "parse_nat (pad_dec w n) = Some n"
  using digits_val_nat_digits [of 0 n] by (simp add: parse_nat_def pad_dec_def nat_str_def)

lemma length_nat_digits_less: "n < 10 ^ k \<Longrightarrow> 0 < k \<Longrightarrow> length (nat_digits n) \<le> k"
proof (induction n arbitrary: k rule: nat_digits.induct)
  case (1 n)
  show ?case
  proof (cases "n < 10")
    case True
    with "1.prems" show ?thesis by (simp add: nat_digits.simps [of n])
  next
    case False
    with "1.prems" obtain k' where k: "k = Suc k'" and "0 < k'"
      by (cases k; cases "k - 1") auto
    with "1.prems" have "n div 10 < 10 ^ k'" by (simp add: less_mult_imp_div_less mult.commute)
    with "1.IH" False \<open>0 < k'\<close> have "length (nat_digits (n div 10)) \<le> k'" by blast
    with False k show ?thesis by (simp add: nat_digits.simps [of n])
  qed
qed

lemma length_pad_dec: "n < 10 ^ w \<Longrightarrow> 0 < w \<Longrightarrow> length (pad_dec w n) = w"
  using length_nat_digits_less [of n w] by (simp add: pad_dec_def nat_str_def)

lemma pad_dec_digits: "c \<in> set (pad_dec w n) \<Longrightarrow> is_digit c"
  by (auto simp: pad_dec_def nat_str_def is_digit_def dest: nat_digits_bound)
    (auto simp: digit_char_def dest!: nat_digits_bound)

section \<open>Lemmas on association lists\<close>

lemma map_of_filter_keys:
  "map_of (filter (\<lambda>(k, v). P k) xs) k = (if P k then map_of xs k else None)"
  by (induction xs) auto

lemma map_of_map_values:
  "map_of (map (\<lambda>kv. (fst kv, f (snd kv))) xs) k = map_option f (map_of xs k)"
  by (induction xs) auto

lemma keys_map_values [simp]: "map fst (map (\<lambda>kv. (fst kv, f (snd kv))) xs) = map fst xs"
  by (induction xs) auto

lemma find_append: "find P (xs @ ys) = (case find P xs of None \<Rightarrow> find P ys | Some x \<Rightarrow> Some x)"
  by (induction xs) auto

lemma eq_char_of_iff: "c = char_of n \<longleftrightarrow> take_bit 8 n = of_char c"
  by (metis char_of_eq_iff)

section \<open>Text order on digit strings\<close>

lemma str_le_append_same_length:
  "length p = length q \<Longrightarrow> str_le (p @ x) (q @ y) \<longleftrightarrow> (if p = q then str_le x y else str_le p q)"
  by (induction p q rule: list_induct2) auto

lemma of_char_digit_char: "d < 10 \<Longrightarrow> (of_char (digit_char d) :: nat) = 48 + d"
  by (simp add: digit_char_def of_char_of)

lemma digit_char_zero: "digit_char 0 = CHR ''0''"
  by (simp add: digit_char_def char_of_eq_iff)

lemma digit_char_inj: "a < 10 \<Longrightarrow> b < 10 \<Longrightarrow> digit_char a = digit_char b \<longleftrightarrow> a = b"
  by (metis of_char_digit_char add_left_cancel)

lemma nat_str_step: "10 \<le> n \<Longrightarrow> nat_str n = nat_str (n div 10) @ [digit_char (n mod 10)]"
  by (simp add: nat_str_def nat_digits.simps [of n])

lemma nat_str_small: "n < 10 \<Longrightarrow> nat_str n = [digit_char n]"
  by (simp add: nat_str_def nat_digits.simps [of n])

lemma pad_dec_step:
  assumes "0 < w"
  shows "pad_dec (Suc w) n = pad_dec w (n div 10) @ [digit_char (n mod 10)]"
proof (cases "n < 10")
  case True
  then show ?thesis using assms
    by (cases w) (simp_all add: pad_dec_def nat_str_small digit_char_zero replicate_app_Cons_same)
next
  case False
  then show ?thesis
    by (simp add: pad_dec_def nat_str_step)
qed

lemma pad_dec_inj: "pad_dec w a = pad_dec w b \<longleftrightarrow> a = b"
  by (metis parse_nat_pad_dec option.inject)

lemma str_le_pad_dec:
  "a < 10 ^ w \<Longrightarrow> b < 10 ^ w \<Longrightarrow> 0 < w \<Longrightarrow> str_le (pad_dec w a) (pad_dec w b) \<longleftrightarrow> a \<le> b"
proof (induction w arbitrary: a b)
  case 0
  then show ?case by simp
next
  case (Suc w)
  show ?case
  proof (cases w)
    case 0
    with Suc.prems show ?thesis
      by (simp add: pad_dec_def nat_str_small of_char_digit_char digit_char_inj)
  next
    case (Suc v)
    have lt: "a div 10 < 10 ^ w" "b div 10 < 10 ^ w"
      using Suc.prems by (simp_all add: less_mult_imp_div_less mult.commute)
    have len: "length (pad_dec w (a div 10)) = length (pad_dec w (b div 10))"
      using lt Suc by (simp add: length_pad_dec)
    have "str_le (pad_dec (Suc w) a) (pad_dec (Suc w) b) \<longleftrightarrow>
          (if a div 10 = b div 10 then a mod 10 \<le> b mod 10 else a div 10 \<le> b div 10)"
      using Suc.IH [OF lt] Suc len
      by (simp add: pad_dec_step str_le_append_same_length pad_dec_inj of_char_digit_char digit_char_inj)
    also have "\<dots> \<longleftrightarrow> a \<le> b"
      by (smt (verit) div_le_mono div_mult_mod_eq le_antisym nat_le_linear add_le_cancel_left mult_le_mono1)
    finally show ?thesis .
  qed
qed

end
