(* ===== verification/Dates.thy ===== *)
theory Dates
  imports Prelude
begin

text \<open>
  Python's \<open>datetime.date\<close> and \<open>datetime.datetime\<close> as records, their validity
  (the range checks of the constructors), \<open>isoformat()\<close>, and the string grammar
  accepted by \<open>datetime.fromisoformat\<close> (Python 3.7 to 3.10, the grammar of its
  documentation \<open>YYYY-MM-DD[*HH[:MM[:SS[.fff[fff]]]][+HH:MM[:SS[.ffffff]]]]\<close>),
  which \<open>SupabaseHelper.parse_date\<close> calls.
\<close>

record date =
  year :: nat
  month :: nat
  day :: nat

text \<open>A datetime keeps its date and time fields; the UTC offset of an aware datetime
  is kept in whole minutes (\<open>None\<close> for a naive one).\<close>

record datetime =
  dt_date :: date
  hour :: nat
  minute :: nat
  second :: nat
  microsecond :: nat
  utc_offset :: "int option"

section \<open>Calendar\<close>

definition is_leap :: "nat \<Rightarrow> bool" where
  "is_leap y \<longleftrightarrow> y mod 4 = 0 \<and> (y mod 100 \<noteq> 0 \<or> y mod 400 = 0)"

definition days_in_month :: "nat \<Rightarrow> nat \<Rightarrow> nat" where
  "days_in_month y m =
     (if m = 2 then (if is_leap y then 29 else 28)
      else if m = 4 \<or> m = 6 \<or> m = 9 \<or> m = 11 then 30 else 31)"

text \<open>The checks of \<open>date(year, month, day)\<close>, with CPython's messages, in its order.\<close>

definition check_date :: "nat \<Rightarrow> nat \<Rightarrow> nat \<Rightarrow> string option" where
  "check_date y m d =
     (if y < 1 \<or> 9999 < y then Some (''year '' @ nat_str y @ '' is out of range'')
      else if m < 1 \<or> 12 < m then Some ''month must be in 1..12''
      else if d < 1 \<or> days_in_month y m < d then Some ''day is out of range for month''
      else None)"

definition check_time :: "nat \<Rightarrow> nat \<Rightarrow> nat \<Rightarrow> nat \<Rightarrow> string option" where
  "check_time h mi s us =
     (if 23 < h then Some ''hour must be in 0..23''
      else if 59 < mi then Some ''minute must be in 0..59''
      else if 59 < s then Some ''second must be in 0..59''
      else if 999999 < us then Some ''microsecond must be in 0..999999''
      else None)"

definition valid_date :: "date \<Rightarrow> bool" where
  "valid_date d \<longleftrightarrow> check_date (year d) (month d) (day d) = None"

definition valid_datetime :: "datetime \<Rightarrow> bool" where
  "valid_datetime t \<longleftrightarrow>
     valid_date (dt_date t) \<and> check_time (hour t) (minute t) (second t) (microsecond t) = None \<and>
     (case utc_offset t of None \<Rightarrow> True | Some m \<Rightarrow> \<bar>m\<bar> < 1440)"

text \<open>The order of \<open>date.__le__\<close>: by year, then month, then day.\<close>

definition date_le :: "date \<Rightarrow> date \<Rightarrow> bool" where
  "date_le a b \<longleftrightarrow>
     year a < year b \<or> (year a = year b \<and> (month a < month b \<or> (month a = month b \<and> day a \<le> day b)))"

section \<open>isoformat\<close>

definition date_isoformat :: "date \<Rightarrow> string" where
  "date_isoformat d = pad_dec 4 (year d) @ ''-'' @ pad_dec 2 (month d) @ ''-'' @ pad_dec 2 (day d)"

text \<open>\<open>+HH:MM\<close> or \<open>-HH:MM\<close>, as \<open>isoformat\<close> prints a whole-minute offset.\<close>

definition offset_isoformat :: "int \<Rightarrow> string" where
  "offset_isoformat m =
     (if m < 0 then ''-'' else ''+'') @
     pad_dec 2 (nat \<bar>m\<bar> div 60) @ '':'' @ pad_dec 2 (nat \<bar>m\<bar> mod 60)"

text \<open>The offset part: empty for a naive datetime.\<close>

definition offset_part :: "datetime \<Rightarrow> string" where
  "offset_part t = (case utc_offset t of None \<Rightarrow> [] | Some m \<Rightarrow> offset_isoformat m)"

text \<open>\<open>YYYY-MM-DDTHH:MM:SS\<close>, then \<open>.ffffff\<close> when the microseconds are not zero,
  then the offset.\<close>

definition datetime_isoformat :: "datetime \<Rightarrow> string" where
  "datetime_isoformat t =
     date_isoformat (dt_date t) @ ''T'' @
     pad_dec 2 (hour t) @ '':'' @ pad_dec 2 (minute t) @ '':'' @ pad_dec 2 (second t) @
     (if microsecond t = 0 then [] else ''.'' @ pad_dec 6 (microsecond t)) @ offset_part t"

section \<open>fromisoformat\<close>

text \<open>\<open>n\<close> ASCII digits at the front of the string, and the rest.\<close>

definition take_digits :: "nat \<Rightarrow> string \<Rightarrow> (nat \<times> string) option" where
  "take_digits n s =
     (if n \<le> length s then map_option (\<lambda>v. (v, drop n s)) (parse_nat (take n s)) else None)"

definition expect :: "char \<Rightarrow> string \<Rightarrow> string option" where
  "expect c s = (case s of [] \<Rightarrow> None | x # r \<Rightarrow> if x = c then Some r else None)"

definition parse_iso_date :: "string \<Rightarrow> ((nat \<times> nat \<times> nat) \<times> string) option" where
  "parse_iso_date s =
     (case take_digits 4 s of None \<Rightarrow> None | Some (y, r1) \<Rightarrow>
      (case expect (CHR ''-'') r1 of None \<Rightarrow> None | Some r2 \<Rightarrow>
       (case take_digits 2 r2 of None \<Rightarrow> None | Some (m, r3) \<Rightarrow>
        (case expect (CHR ''-'') r3 of None \<Rightarrow> None | Some r4 \<Rightarrow>
         (case take_digits 2 r4 of None \<Rightarrow> None | Some (d, r5) \<Rightarrow> Some ((y, m, d), r5))))))"

definition tz_or_end :: "string \<Rightarrow> bool" where
  "tz_or_end r \<longleftrightarrow> r = [] \<or> hd r = CHR ''+'' \<or> hd r = CHR ''-''"

text \<open>\<open>.fff\<close> or \<open>.ffffff\<close> (after the dot), read as microseconds.\<close>

definition parse_frac :: "string \<Rightarrow> (nat \<times> string) option" where
  "parse_frac s =
     (case take_digits 6 s of
        Some (f, r) \<Rightarrow> if tz_or_end r then Some (f, r) else None
      | None \<Rightarrow>
        (case take_digits 3 s of
           Some (f, r) \<Rightarrow> if tz_or_end r then Some (f * 1000, r) else None
         | None \<Rightarrow> None))"

text \<open>\<open>HH[:MM[:SS[.fff[fff]]]]\<close>: the fields hour, minute, second, microsecond.\<close>

definition parse_time :: "string \<Rightarrow> ((nat \<times> nat \<times> nat \<times> nat) \<times> string) option" where
  "parse_time s =
     (case take_digits 2 s of None \<Rightarrow> None | Some (h, r1) \<Rightarrow>
      (case expect (CHR '':'') r1 of None \<Rightarrow> Some ((h, 0, 0, 0), r1) | Some r2 \<Rightarrow>
       (case take_digits 2 r2 of None \<Rightarrow> None | Some (mi, r3) \<Rightarrow>
        (case expect (CHR '':'') r3 of None \<Rightarrow> Some ((h, mi, 0, 0), r3) | Some r4 \<Rightarrow>
         (case take_digits 2 r4 of None \<Rightarrow> None | Some (sec, r5) \<Rightarrow>
          (case expect (CHR ''.'') r5 of None \<Rightarrow> Some ((h, mi, sec, 0), r5) | Some r6 \<Rightarrow>
           (case parse_frac r6 of None \<Rightarrow> None | Some (f, r7) \<Rightarrow> Some ((h, mi, sec, f), r7))))))))"

text \<open>\<open>+HH:MM[:SS[.ffffff]]\<close> after the sign: the offset in seconds (its sign apart).\<close>

definition parse_tz_body :: "string \<Rightarrow> nat option" where
  "parse_tz_body s =
     (case take_digits 2 s of None \<Rightarrow> None | Some (h, r1) \<Rightarrow>
      (case expect (CHR '':'') r1 of None \<Rightarrow> None | Some r2 \<Rightarrow>
       (case take_digits 2 r2 of None \<Rightarrow> None | Some (mi, r3) \<Rightarrow>
        if r3 = [] then Some (3600 * h + 60 * mi)
        else (case expect (CHR '':'') r3 of None \<Rightarrow> None | Some r4 \<Rightarrow>
         (case take_digits 2 r4 of None \<Rightarrow> None | Some (sec, r5) \<Rightarrow>
          if r5 = [] then Some (3600 * h + 60 * mi + sec)
          else (case expect (CHR ''.'') r5 of None \<Rightarrow> None | Some r6 \<Rightarrow>
           (case take_digits 6 r6 of None \<Rightarrow> None | Some (_, r7) \<Rightarrow>
            if r7 = [] then Some (3600 * h + 60 * mi + sec) else None)))))))"

text \<open>The offset is checked to be strictly less than a day, as \<open>timezone()\<close> does.\<close>

definition parse_tz :: "string \<Rightarrow> string + unit" where
  "parse_tz r =
     (if r = [] then Inr ()
      else (case parse_tz_body (tl r) of
              None \<Rightarrow> Inl ''Invalid isoformat string''
            | Some secs \<Rightarrow> if secs < 86400 then Inr ()
                else Inl ''offset must be a timedelta strictly between -timedelta(hours=24) and timedelta(hours=24)''))"

text \<open>\<open>datetime.fromisoformat(s).date()\<close>: the date, or the message of the
  \<open>ValueError\<close> raised. The character after the date is the separator, any character.\<close>

definition fromisoformat_date :: "string \<Rightarrow> string + date" where
  "fromisoformat_date s =
     (case parse_iso_date s of
        None \<Rightarrow> Inl ''Invalid isoformat string''
      | Some ((y, m, d), rest) \<Rightarrow>
          (case rest of
             [] \<Rightarrow> (case check_date y m d of Some e \<Rightarrow> Inl e
                    | None \<Rightarrow> Inr \<lparr>year = y, month = m, day = d\<rparr>)
           | sep # t \<Rightarrow>
               (case parse_time t of
                  None \<Rightarrow> Inl ''Invalid isoformat string''
                | Some ((h, mi, sec, us), r) \<Rightarrow>
                    if \<not> tz_or_end r then Inl ''Invalid isoformat string''
                    else (case parse_tz r of
                            Inl e \<Rightarrow> Inl e
                          | Inr _ \<Rightarrow>
                              (case check_date y m d of Some e \<Rightarrow> Inl e | None \<Rightarrow>
                               (case check_time h mi sec us of Some e \<Rightarrow> Inl e
                                | None \<Rightarrow> Inr \<lparr>year = y, month = m, day = d\<rparr>))))))"

section \<open>Lemmas\<close>

lemma take_digits_pad:
  "n < 10 ^ w \<Longrightarrow> 0 < w \<Longrightarrow> take_digits w (pad_dec w n @ r) = Some (n, r)"
  by (simp add: take_digits_def length_pad_dec parse_nat_pad_dec)

lemma take_digits_pad_Nil:
  "n < 10 ^ w \<Longrightarrow> 0 < w \<Longrightarrow> take_digits w (pad_dec w n) = Some (n, [])"
  using take_digits_pad [of n w "[]"] by simp

lemma expect_Cons [simp]: "expect c (x # r) = (if x = c then Some r else None)"
  by (simp add: expect_def)

lemma expect_Nil [simp]: "expect c [] = None"
  by (simp add: expect_def)

lemma valid_date_bounds:
  "valid_date d \<Longrightarrow> year d < 10 ^ 4 \<and> month d < 10 ^ 2 \<and> day d < 10 ^ 2"
  by (auto simp: valid_date_def check_date_def days_in_month_def split: if_splits)

lemma parse_iso_date_isoformat:
  assumes "valid_date d"
  shows "parse_iso_date (date_isoformat d @ r) = Some ((year d, month d, day d), r)"
  using valid_date_bounds [OF assms]
  by (simp add: parse_iso_date_def date_isoformat_def take_digits_pad)

lemma date_eta [simp]: "\<lparr>year = year d, month = month d, day = day d\<rparr> = d"
  by simp

text \<open>For every valid date, \<open>datetime.fromisoformat(d.isoformat()).date()\<close> is \<open>d\<close>;
  for every valid datetime, it is the datetime's date.\<close>

lemma fromisoformat_date_isoformat:
  "valid_date d \<Longrightarrow> fromisoformat_date (date_isoformat d) = Inr d"
  using parse_iso_date_isoformat [of d "[]"]
  by (simp add: fromisoformat_date_def valid_date_def)


lemma offset_isoformat_Cons:
  "\<exists>c r. offset_isoformat m = c # r \<and> (c = CHR ''+'' \<or> c = CHR ''-'')"
  by (simp add: offset_isoformat_def)

lemma parse_tz_offset:
  assumes "\<bar>m\<bar> < 1440"
  shows "parse_tz (offset_isoformat m) = Inr ()"
proof -
  let ?a = "nat \<bar>m\<bar> div 60" and ?b = "nat \<bar>m\<bar> mod 60"
  have a: "?a < 24" using assms by linarith
  have b: "?b < 60" by simp
  have "tl (offset_isoformat m) = pad_dec 2 ?a @ '':'' @ pad_dec 2 ?b"
    by (simp add: offset_isoformat_def)
  moreover have "parse_tz_body (pad_dec 2 ?a @ '':'' @ pad_dec 2 ?b) = Some (3600 * ?a + 60 * ?b)"
    using a b by (simp add: parse_tz_body_def take_digits_pad take_digits_pad_Nil)
  moreover have "3600 * ?a + 60 * ?b < 86400" using a b by linarith
  moreover have "offset_isoformat m \<noteq> []" by (simp add: offset_isoformat_def)
  ultimately show ?thesis by (simp add: parse_tz_def)
qed

lemma parse_tz_Nil [simp]: "parse_tz [] = Inr ()"
  by (simp add: parse_tz_def)

lemma offset_part_facts:
  assumes "valid_datetime t"
  shows "tz_or_end (offset_part t)" "expect (CHR ''.'') (offset_part t) = None" "parse_tz (offset_part t) = Inr ()"
proof -
  show "tz_or_end (offset_part t)" "expect (CHR ''.'') (offset_part t) = None"
    using offset_isoformat_Cons [of "the (utc_offset t)"]
    by (auto simp: offset_part_def tz_or_end_def split: option.splits)
  show "parse_tz (offset_part t) = Inr ()"
    using assms parse_tz_offset
    by (auto simp: offset_part_def valid_datetime_def split: option.splits)
qed

lemma valid_datetime_bounds:
  "valid_datetime t \<Longrightarrow> hour t < 10 ^ 2 \<and> minute t < 10 ^ 2 \<and> second t < 10 ^ 2 \<and> microsecond t < 10 ^ 6"
  by (auto simp: valid_datetime_def check_time_def split: if_splits)

lemma parse_time_isoformat:
  assumes "valid_datetime t"
  shows "parse_time (pad_dec 2 (hour t) @ '':'' @ pad_dec 2 (minute t) @ '':'' @ pad_dec 2 (second t) @
           (if microsecond t = 0 then [] else ''.'' @ pad_dec 6 (microsecond t)) @ offset_part t) =
         Some ((hour t, minute t, second t, microsecond t), offset_part t)"
  using valid_datetime_bounds [OF assms] offset_part_facts [OF assms]
  by (simp add: parse_time_def take_digits_pad parse_frac_def)

lemma fromisoformat_datetime_isoformat:
  assumes "valid_datetime t"
  shows "fromisoformat_date (datetime_isoformat t) = Inr (dt_date t)"
proof -
  have d: "valid_date (dt_date t)" using assms by (simp add: valid_datetime_def)
  have "datetime_isoformat t = date_isoformat (dt_date t) @ CHR ''T'' #
      (pad_dec 2 (hour t) @ '':'' @ pad_dec 2 (minute t) @ '':'' @ pad_dec 2 (second t) @
       (if microsecond t = 0 then [] else ''.'' @ pad_dec 6 (microsecond t)) @ offset_part t)"
    by (simp add: datetime_isoformat_def)
  then show ?thesis
    using parse_iso_date_isoformat [OF d] parse_time_isoformat [OF assms] offset_part_facts [OF assms] assms
    by (simp add: fromisoformat_date_def valid_datetime_def valid_date_def)
qed

lemma digit_not_Z: "is_digit c \<Longrightarrow> c \<noteq> CHR ''Z''"
  by (auto simp: is_digit_def)

lemma Z_not_in_date_isoformat: "CHR ''Z'' \<notin> set (date_isoformat d)"
  by (auto simp: date_isoformat_def dest: pad_dec_digits digit_not_Z)

lemma Z_not_in_datetime_isoformat: "CHR ''Z'' \<notin> set (datetime_isoformat t)"
  by (auto simp: datetime_isoformat_def offset_part_def offset_isoformat_def Z_not_in_date_isoformat
      dest: pad_dec_digits digit_not_Z split: option.splits if_splits)

text \<open>On valid dates the byte order of the ISO strings is the order of the dates: the
  store's text comparison of \<open>isoformat()\<close> bounds compares dates.\<close>

lemma str_le_date_isoformat:
  assumes "valid_date a" "valid_date b"
  shows "str_le (date_isoformat a) (date_isoformat b) \<longleftrightarrow> date_le a b"
proof -
  note ba = valid_date_bounds [OF assms(1)] and bb = valid_date_bounds [OF assms(2)]
  have l4: "length (pad_dec 4 (year a)) = length (pad_dec 4 (year b))"
    using ba bb by (simp add: length_pad_dec)
  have l2: "length (pad_dec 2 (month a)) = length (pad_dec 2 (month b))"
    using ba bb by (simp add: length_pad_dec)
  show ?thesis
    using ba bb l4 l2
    by (auto simp: date_isoformat_def date_le_def str_le_append_same_length pad_dec_inj str_le_pad_dec)
qed

text \<open>Evaluation of \<open>isoformat\<close> on a concrete date.\<close>

lemmas isoformat_eval = date_isoformat_def pad_dec_def nat_str_def nat_digits.simps digit_char_def
  char_of_eq_iff eq_char_of_iff

end
