(* ===== verification/Values.thy ===== *)
theory Values
  imports Dates
begin

text \<open>
  The values that flow through the program: Python values as the repository receives
  them (dates among them), JSON values as the store and the HTTP layer exchange them, the
  exceptions the code raises or lets through, and the Python built-ins the code applies
  to values (truthiness, \<open>str()\<close>, \<open>json.dumps\<close>'s serialisability).
\<close>

text \<open>
  One type for both: JSON has no dates, so a value with \<open>VDate\<close> or \<open>VDateTime\<close>
  inside is a Python value that \<open>json.dumps\<close> refuses. Floats are kept as exact
  rationals (IEEE rounding is not modelled). Objects are dicts: association lists whose
  keys are distinct, in insertion order.
\<close>

datatype pyval =
    VNull
  | VBool bool
  | VInt int
  | VFloat rat
  | VStr string
  | VDate date
  | VDateTime datetime
  | VList "pyval list"
  | VObj "(string \<times> pyval) list"

type_synonym dict = "(string \<times> pyval) list"

text \<open>The exceptions of the program: the store client's \<open>APIError\<close>, and Python's own.\<close>

datatype exn =
    APIError string
  | TypeError string
  | ValueError string
  | AttributeError string
  | KeyError string

text \<open>\<open>str(e)\<close>, which the handlers put in their \<open>{'error': ...}\<close> bodies.\<close>

fun exn_str :: "exn \<Rightarrow> string" where
  "exn_str (APIError m) = m"
| "exn_str (TypeError m) = m"
| "exn_str (ValueError m) = m"
| "exn_str (AttributeError m) = m"
| "exn_str (KeyError k) = CHR 0x27 # k @ [CHR 0x27]"

section \<open>Python built-ins on values\<close>

fun type_name :: "pyval \<Rightarrow> string" where
  "type_name VNull = ''NoneType''"
| "type_name (VBool _) = ''bool''"
| "type_name (VInt _) = ''int''"
| "type_name (VFloat _) = ''float''"
| "type_name (VStr _) = ''str''"
| "type_name (VDate _) = ''date''"
| "type_name (VDateTime _) = ''datetime''"
| "type_name (VList _) = ''list''"
| "type_name (VObj _) = ''dict''"

text \<open>\<open>bool(v)\<close>: what \<open>if v\<close>, \<open>not v\<close> and \<open>v or 0\<close> test.\<close>

fun truthy :: "pyval \<Rightarrow> bool" where
  "truthy VNull = False"
| "truthy (VBool b) = b"
| "truthy (VInt i) = (i \<noteq> 0)"
| "truthy (VFloat r) = (r \<noteq> 0)"
| "truthy (VStr s) = (s \<noteq> [])"
| "truthy (VDate _) = True"
| "truthy (VDateTime _) = True"
| "truthy (VList vs) = (vs \<noteq> [])"
| "truthy (VObj kvs) = (kvs \<noteq> [])"

text \<open>\<open>json.dumps\<close> accepts the value: no date or datetime anywhere inside.\<close>

fun json_safe :: "pyval \<Rightarrow> bool" where
  "json_safe (VDate _) = False"
| "json_safe (VDateTime _) = False"
| "json_safe (VList vs) = list_all json_safe vs"
| "json_safe (VObj kvs) = list_all (\<lambda>kv. json_safe (snd kv)) kvs"
| "json_safe _ = True"

definition dict_safe :: "dict \<Rightarrow> bool" where
  "dict_safe d \<longleftrightarrow> list_all (\<lambda>kv. json_safe (snd kv)) d"

text \<open>The message of the \<open>TypeError\<close> that \<open>json.dumps\<close> raises on the first
  value it cannot serialise.\<close>

definition not_serializable :: "string \<Rightarrow> exn" where
  "not_serializable tn = TypeError (''Object of type '' @ tn @ '' is not JSON serializable'')"

text \<open>The type of the first value \<open>json.dumps\<close> cannot serialise, in its order.\<close>

fun first_some :: "'a option list \<Rightarrow> 'a option" where
  "first_some [] = None"
| "first_some (Some x # _) = Some x"
| "first_some (None # xs) = first_some xs"

fun unsafe_type :: "pyval \<Rightarrow> string option" where
  "unsafe_type (VDate _) = Some ''date''"
| "unsafe_type (VDateTime _) = Some ''datetime''"
| "unsafe_type (VList vs) = first_some (map unsafe_type vs)"
| "unsafe_type (VObj kvs) = first_some (map (\<lambda>kv. unsafe_type (snd kv)) kvs)"
| "unsafe_type _ = None"

text \<open>
  \<open>repr(float)\<close> for the floats it prints positionally: sign, integer part, and the
  fractional digits (at most 17, trailing zeros dropped, at least one). The exponent form
  Python uses below \<open>1e-4\<close> and from \<open>1e16\<close> on is not modelled.
\<close>

definition float_repr :: "rat \<Rightarrow> string" where
  "float_repr r =
     (let a = \<bar>r\<bar>; n = \<lfloor>a\<rfloor>; f = a - of_int n;
          ds = map (\<lambda>k. nat (\<lfloor>f * 10 ^ Suc k\<rfloor> mod 10)) [0..<17];
          ds' = rev (dropWhile (\<lambda>d. d = 0) (rev ds))
      in (if r < 0 then ''-'' else []) @ nat_str (nat n) @ ''.'' @
         (if ds' = [] then ''0'' else map digit_char ds'))"

text \<open>
  \<open>str(v)\<close> as an f-string prints it. Strings inside containers are printed between
  single quotes; the escaping \<open>repr\<close> applies to quotes, backslashes and unprintable
  characters is not modelled.
\<close>

fun py_repr :: "pyval \<Rightarrow> string" where
  "py_repr VNull = ''None''"
| "py_repr (VBool b) = (if b then ''True'' else ''False'')"
| "py_repr (VInt i) = int_str i"
| "py_repr (VFloat r) = float_repr r"
| "py_repr (VStr s) = CHR 0x27 # s @ [CHR 0x27]"
| "py_repr (VDate d) = ''datetime.date('' @ nat_str (year d) @ '', '' @ nat_str (month d) @ '', ''
     @ nat_str (day d) @ '')''"
| "py_repr (VDateTime t) = ''datetime.datetime('' @ date_isoformat (dt_date t) @ '')''"
| "py_repr (VList vs) = ''['' @ str_join '', '' (map py_repr vs) @ '']''"
| "py_repr (VObj kvs) = ''{'' @ str_join '', ''
     (map (\<lambda>kv. CHR 0x27 # fst kv @ CHR 0x27 # '': '' @ py_repr (snd kv)) kvs) @ ''}''"

fun py_str :: "pyval \<Rightarrow> string" where
  "py_str (VStr s) = s"
| "py_str (VDate d) = date_isoformat d"
| "py_str (VDateTime t) = date_isoformat (dt_date t) @ '' '' @ drop 11 (datetime_isoformat t)"
| "py_str v = py_repr v"

text \<open>\<open>d.get(k)\<close> on a dict: the value, or \<open>None\<close>.\<close>

definition dict_get :: "dict \<Rightarrow> string \<Rightarrow> pyval" where
  "dict_get d k = (case map_of d k of Some v \<Rightarrow> v | None \<Rightarrow> VNull)"

text \<open>The \<open>AttributeError\<close> of \<open>x.get(k)\<close> on a value that is not a dict.\<close>

definition get_error :: "pyval \<Rightarrow> exn" where
  "get_error x = AttributeError (CHR 0x27 # type_name x @
     CHR 0x27 # '' object has no attribute '' @ CHR 0x27 # ''get'' @ [CHR 0x27])"

section \<open>Lemmas\<close>

lemma dict_safe_Nil [simp]: "dict_safe []"
  by (simp add: dict_safe_def)

lemma dict_safe_Cons [simp]: "dict_safe (kv # d) \<longleftrightarrow> json_safe (snd kv) \<and> dict_safe d"
  by (simp add: dict_safe_def)

lemma dict_safe_append [simp]: "dict_safe (d @ e) \<longleftrightarrow> dict_safe d \<and> dict_safe e"
  by (simp add: dict_safe_def)

lemma json_safe_VObj [simp]: "json_safe (VObj d) \<longleftrightarrow> dict_safe d"
  by (simp add: dict_safe_def)

declare json_safe.simps(4) [simp del]

lemma dict_safe_map_of: "dict_safe d \<Longrightarrow> map_of d k = Some v \<Longrightarrow> json_safe v"
  by (induction d) (auto split: if_splits)

lemma dict_get_Nil [simp]: "dict_get [] k = VNull"
  by (simp add: dict_get_def)

lemma dict_get_Cons [simp]: "dict_get (kv # d) k = (if fst kv = k then snd kv else dict_get d k)"
  by (simp add: dict_get_def)

lemma dict_get_safe: "dict_safe d \<Longrightarrow> json_safe (dict_get d k)"
  by (auto simp: dict_get_def dest: dict_safe_map_of split: option.splits)

end
