(* ===== verification/Like.thy ===== *)
theory Like
  imports Prelude
begin

text \<open>
  The pattern matching behind \<open>SupabaseHelper.search\<close>: the client sends
  \<open>column=ilike.%term%\<close>; the REST layer of the store reads \<open>*\<close> in a like-pattern
  as \<open>%\<close>, and the database's \<open>ILIKE\<close> matches \<open>%\<close> against any sequence,
  \<open>_\<close> against any one character, and takes the character after a backslash
  literally, ignoring case. A pattern that ends in an unpaired backslash is an error
  of the database. Case folding is modelled on ASCII letters.
\<close>

abbreviation backslash :: char where
  "backslash \<equiv> CHR 0x5C"

fun like_match :: "string \<Rightarrow> string \<Rightarrow> bool" where
  "like_match [] s = (s = [])"
| "like_match (c # p) s =
     (if c = CHR ''%'' then
        like_match p s \<or> (case s of [] \<Rightarrow> False | _ # s' \<Rightarrow> like_match (c # p) s')
      else if c = CHR ''_'' then
        (case s of [] \<Rightarrow> False | _ # s' \<Rightarrow> like_match p s')
      else if c = backslash then
        (case p of [] \<Rightarrow> False
         | e # p' \<Rightarrow> (case s of [] \<Rightarrow> False | x # s' \<Rightarrow> x = e \<and> like_match p' s'))
      else (case s of [] \<Rightarrow> False | x # s' \<Rightarrow> x = c \<and> like_match p s'))"

text \<open>The database refuses a pattern whose last character is an unpaired escape.\<close>

fun like_pattern_ok :: "string \<Rightarrow> bool" where
  "like_pattern_ok [] = True"
| "like_pattern_ok (c # p) =
     (if c = backslash then (case p of [] \<Rightarrow> False | _ # p' \<Rightarrow> like_pattern_ok p')
      else like_pattern_ok p)"

definition ilike_match :: "string \<Rightarrow> string \<Rightarrow> bool" where
  "ilike_match p s \<longleftrightarrow> like_match (lower p) (lower s)"

text \<open>The REST layer's reading of a like-pattern: \<open>*\<close> stands for \<open>%\<close>.\<close>

definition pgrst_pattern :: "string \<Rightarrow> string" where
  "pgrst_pattern p = map (\<lambda>c. if c = CHR ''*'' then CHR ''%'' else c) p"

text \<open>Characters with a meaning in a pattern, after the REST layer's reading.\<close>

definition like_special :: "char \<Rightarrow> bool" where
  "like_special c \<longleftrightarrow> c = CHR ''%'' \<or> c = CHR ''_'' \<or> c = CHR ''*'' \<or> c = backslash"

section \<open>Lemmas\<close>

lemma like_match_literal:
  "\<forall>c \<in> set p. \<not> like_special c \<Longrightarrow> like_match (p @ q) s \<longleftrightarrow> (\<exists>s'. s = p @ s' \<and> like_match q s')"
proof (induction p arbitrary: s)
  case Nil
  then show ?case by simp
next
  case (Cons c p)
  then show ?case
    by (cases s) (auto simp: like_special_def)
qed

lemma like_match_percent:
  "like_match (CHR ''%'' # q) s \<longleftrightarrow> (\<exists>s'. suffix s' s \<and> like_match q s')"
proof (induction s)
  case Nil
  then show ?case by simp
next
  case (Cons x s)
  then show ?case
    by (auto simp: suffix_Cons)
qed

lemma lower_special: "like_special c \<Longrightarrow> lower_char c = c"
  by (auto simp: like_special_def lower_char_def)

lemma lower_not_special:
  assumes "\<not> like_special c"
  shows "\<not> like_special (lower_char c)"
proof (cases "(65::nat) \<le> of_char c \<and> of_char c \<le> (90::nat)")
  case True
  then have "of_char (lower_char c) = of_char c + (32::nat)"
    by (simp add: lower_char_def of_char_of)
  with True show ?thesis
    by (auto simp: like_special_def)
next
  case False
  then have "lower_char c = c"
    by (auto simp: lower_char_def)
  with assms show ?thesis
    by simp
qed

lemma pgrst_pattern_plain: "\<forall>c \<in> set t. \<not> like_special c \<Longrightarrow> pgrst_pattern t = t"
  by (induction t) (auto simp: pgrst_pattern_def like_special_def)

lemma lower_append [simp]: "lower (xs @ ys) = lower xs @ lower ys"
  by (simp add: lower_def)

lemma lower_percent [simp]: "lower (CHR ''%'' # xs) = CHR ''%'' # lower xs"
  by (simp add: lower_def lower_char_def)

lemma lower_Nil [simp]: "lower [] = []"
  by (simp add: lower_def)

lemma lower_plain: "\<forall>c \<in> set t. \<not> like_special c \<Longrightarrow> \<forall>c \<in> set (lower t). \<not> like_special c"
  by (auto simp: lower_def dest: lower_not_special)

lemma like_match_substring:
  assumes "\<forall>c \<in> set p. \<not> like_special c"
  shows "like_match (CHR ''%'' # p @ ''%'') s \<longleftrightarrow> sublist p s"
proof -
  have "like_match (CHR ''%'' # p @ ''%'') s \<longleftrightarrow> (\<exists>s'. suffix s' s \<and> (\<exists>s''. s' = p @ s''))"
    using assms by (simp add: like_match_percent like_match_literal del: like_match.simps(2))
  also have "\<dots> \<longleftrightarrow> sublist p s"
    by (auto simp: sublist_def suffix_def)
  finally show ?thesis .
qed

text \<open>The pattern \<open>search\<close> sends matches exactly the texts that contain the term,
  ignoring case, when the term has no character with a meaning in a pattern.\<close>

lemma ilike_contains:
  assumes "\<forall>c \<in> set t. \<not> like_special c"
  shows "ilike_match (pgrst_pattern (''%'' @ t @ ''%'')) s \<longleftrightarrow> sublist (lower t) (lower s)"
proof -
  have "pgrst_pattern (''%'' @ t @ ''%'') = CHR ''%'' # t @ ''%''"
    using pgrst_pattern_plain [OF assms] by (simp add: pgrst_pattern_def)
  then show ?thesis
    using like_match_substring [OF lower_plain [OF assms]] by (simp add: ilike_match_def)
qed

lemma like_pattern_ok_plain: "backslash \<notin> set p \<Longrightarrow> like_pattern_ok p"
  by (induction p rule: like_pattern_ok.induct) auto

lemma like_match_percent_end: "like_match ''%'' s"
  by (induction s) simp_all

lemma like_match_plain_percent:
  "\<forall>c \<in> set q. \<not> like_special c \<Longrightarrow> like_match (q @ ''%'') s \<longleftrightarrow> prefix q s"
  by (simp add: like_match_literal like_match_percent_end prefix_def del: like_match.simps(2))

lemma like_match_underscore:
  "like_match (CHR ''_'' # r) s \<longleftrightarrow> (\<exists>x s'. s = x # s' \<and> like_match r s')"
  by (cases s) simp_all

lemma lower_underscore [simp]: "lower (CHR ''_'' # xs) = CHR ''_'' # lower xs"
  by (simp add: lower_def lower_char_def)

lemma like_match_one_wildcard:
  assumes p: "\<forall>c \<in> set p. \<not> like_special c" and q: "\<forall>c \<in> set q. \<not> like_special c"
  shows "like_match (CHR ''%'' # p @ CHR ''_'' # q @ ''%'') s \<longleftrightarrow> (\<exists>x. sublist (p @ x # q) s)"
proof -
  have "\<And>t. like_match (p @ CHR ''_'' # q @ ''%'') t \<longleftrightarrow> (\<exists>x t'. t = p @ x # q @ t')"
    using p by (simp add: like_match_literal like_match_underscore like_match_plain_percent [OF q]
        prefix_def del: like_match.simps(2)) blast
  then have "like_match (CHR ''%'' # p @ CHR ''_'' # q @ ''%'') s \<longleftrightarrow>
        (\<exists>s'. suffix s' s \<and> (\<exists>x t'. s' = p @ x # q @ t'))"
    by (simp add: like_match_percent del: like_match.simps(2))
  also have "\<dots> \<longleftrightarrow> (\<exists>x. sublist (p @ x # q) s)"
    by (auto simp: sublist_def suffix_def)
  finally show ?thesis .
qed

text \<open>One \<open>_\<close> in the term of \<open>search\<close> stands for any one character.\<close>

lemma ilike_one_wildcard:
  assumes "\<forall>c \<in> set p. \<not> like_special c" "\<forall>c \<in> set q. \<not> like_special c"
  shows "ilike_match (pgrst_pattern (''%'' @ p @ CHR ''_'' # q @ ''%'')) s \<longleftrightarrow>
         (\<exists>x. sublist (lower p @ x # lower q) (lower s))"
proof -
  have "pgrst_pattern (''%'' @ p @ CHR ''_'' # q @ ''%'') = CHR ''%'' # p @ CHR ''_'' # q @ ''%''"
    using pgrst_pattern_plain [OF assms(1)] pgrst_pattern_plain [OF assms(2)]
    by (simp add: pgrst_pattern_def)
  then show ?thesis
    using like_match_one_wildcard [OF lower_plain [OF assms(1)] lower_plain [OF assms(2)]]
    by (simp add: ilike_match_def del: like_match.simps(2))
qed

end
