(* ===== verification/Store.thy ===== *)
theory Store
  imports Values Like
begin

text \<open>
  The backing store that \<open>supabase_config.py\<close> talks to through the \<open>supabase\<close>
  client: named tables of rows, and the client's query builder
  (\<open>table(t).select(..)\<close>, \<open>.insert(..)\<close>, \<open>.update(..)\<close>, \<open>.delete()\<close>, then
  \<open>.eq\<close>, \<open>.ilike\<close>, \<open>.gte\<close>, \<open>.lte\<close> filters and \<open>.execute()\<close>). The client and
  the store are not code of this repository: they are modelled from the specification
  (section 4.1) and the documented behaviour of the REST layer. A query either fails with
  an \<open>APIError\<close> (or the client's \<open>TypeError\<close> when its payload is not JSON) and
  changes nothing, or returns the rows it selected, inserted, updated or deleted.
\<close>

type_synonym row = dict

text \<open>A table: its columns (with \<open>id\<close>, the identity key), its foreign keys
  (column, referenced table), its rows in storage order, and the next identity value.\<close>

record table =
  t_cols :: "string list"
  t_fks :: "(string \<times> string) list"
  t_rows :: "row list"
  t_next :: int

type_synonym db = "(string \<times> table) list"

datatype filt =
    FEq string pyval
  | FILike string string
  | FGte string string
  | FLte string string

datatype action =
    ASelect string
  | AInsert pyval
  | AUpdate pyval
  | ADelete

record query =
  q_table :: string
  q_action :: action
  q_filters :: "filt list"

section \<open>The query builder\<close>

definition sb_select :: "string \<Rightarrow> string \<Rightarrow> query" where
  "sb_select t cols = \<lparr>q_table = t, q_action = ASelect cols, q_filters = []\<rparr>"

definition sb_insert :: "string \<Rightarrow> pyval \<Rightarrow> query" where
  "sb_insert t v = \<lparr>q_table = t, q_action = AInsert v, q_filters = []\<rparr>"

definition sb_update :: "string \<Rightarrow> pyval \<Rightarrow> query" where
  "sb_update t v = \<lparr>q_table = t, q_action = AUpdate v, q_filters = []\<rparr>"

definition sb_delete :: "string \<Rightarrow> query" where
  "sb_delete t = \<lparr>q_table = t, q_action = ADelete, q_filters = []\<rparr>"

definition add_filter :: "query \<Rightarrow> filt \<Rightarrow> query" where
  "add_filter q f = q\<lparr>q_filters := q_filters q @ [f]\<rparr>"

definition q_eq :: "query \<Rightarrow> string \<Rightarrow> pyval \<Rightarrow> query" where
  "q_eq q c v = add_filter q (FEq c v)"

definition q_ilike :: "query \<Rightarrow> string \<Rightarrow> string \<Rightarrow> query" where
  "q_ilike q c p = add_filter q (FILike c p)"

definition q_gte :: "query \<Rightarrow> string \<Rightarrow> string \<Rightarrow> query" where
  "q_gte q c b = add_filter q (FGte c b)"

definition q_lte :: "query \<Rightarrow> string \<Rightarrow> string \<Rightarrow> query" where
  "q_lte q c b = add_filter q (FLte c b)"

section \<open>Filters\<close>

fun filt_col :: "filt \<Rightarrow> string" where
  "filt_col (FEq c _) = c"
| "filt_col (FILike c _) = c"
| "filt_col (FGte c _) = c"
| "filt_col (FLte c _) = c"

text \<open>The cell of a row; a column the row lacks reads as \<open>NULL\<close>.\<close>

abbreviation cell :: "row \<Rightarrow> string \<Rightarrow> pyval" where
  "cell r c \<equiv> dict_get r c"

text \<open>Whether the database can evaluate the comparison on the cell's type: pattern and
  order comparisons with a text bound need a text (or \<open>NULL\<close>) column.\<close>

fun text_cell :: "pyval \<Rightarrow> bool" where
  "text_cell (VStr _) = True"
| "text_cell VNull = True"
| "text_cell _ = False"

fun filt_typed :: "filt \<Rightarrow> pyval \<Rightarrow> bool" where
  "filt_typed (FEq _ _) x = True"
| "filt_typed _ x = text_cell x"

text \<open>SQL comparisons: \<open>NULL\<close> satisfies none of them.\<close>

fun filt_holds :: "filt \<Rightarrow> pyval \<Rightarrow> bool" where
  "filt_holds (FEq _ v) x = (x \<noteq> VNull \<and> x = v)"
| "filt_holds (FILike _ p) x = (case x of VStr s \<Rightarrow> ilike_match (pgrst_pattern p) s | _ \<Rightarrow> False)"
| "filt_holds (FGte _ b) x = (case x of VStr s \<Rightarrow> str_le b s | _ \<Rightarrow> False)"
| "filt_holds (FLte _ b) x = (case x of VStr s \<Rightarrow> str_le s b | _ \<Rightarrow> False)"

definition row_matches :: "filt list \<Rightarrow> row \<Rightarrow> bool" where
  "row_matches fs r \<longleftrightarrow> list_all (\<lambda>f. filt_holds f (cell r (filt_col f))) fs"

fun filt_pattern_ok :: "filt \<Rightarrow> bool" where
  "filt_pattern_ok (FILike _ p) = like_pattern_ok (pgrst_pattern p)"
| "filt_pattern_ok _ = True"

definition no_column :: "string \<Rightarrow> string \<Rightarrow> exn" where
  "no_column t c = APIError (''column '' @ t @ ''.'' @ c @ '' does not exist'')"

text \<open>The error, if any, the database reports for the filters of a query on table \<open>t\<close>.\<close>

definition filter_error :: "string \<Rightarrow> table \<Rightarrow> filt list \<Rightarrow> exn option" where
  "filter_error t tbl fs =
     (case find (\<lambda>f. filt_col f \<notin> set (t_cols tbl)) fs of
        Some f \<Rightarrow> Some (no_column t (filt_col f))
      | None \<Rightarrow>
        if \<not> list_all (\<lambda>f. list_all (\<lambda>r. filt_typed f (cell r (filt_col f))) (t_rows tbl)) fs
        then Some (APIError ''operator does not exist'')
        else if \<not> list_all filt_pattern_ok fs
        then Some (APIError ''LIKE pattern must not end with escape character'')
        else None)"

section \<open>Select lists\<close>

datatype sel = SelAll | SelCol string | SelEmbed string

text \<open>The select strings the code passes: \<open>'*'\<close>, one column, and \<open>'t(*)'\<close>
  (the rows of \<open>t\<close> a foreign key of the queried table points at).\<close>

definition parse_select :: "string \<Rightarrow> sel" where
  "parse_select s =
     (if s = ''*'' then SelAll
      else if suffix ''(*)'' s then SelEmbed (take (length s - 3) s)
      else SelCol s)"

definition find_by_id :: "row list \<Rightarrow> pyval \<Rightarrow> row option" where
  "find_by_id rs v = find (\<lambda>r. cell r ''id'' = v) rs"

definition embed :: "string \<Rightarrow> string \<Rightarrow> table \<Rightarrow> row \<Rightarrow> row" where
  "embed c t' tgt r =
     [(t', case find_by_id (t_rows tgt) (cell r c) of Some r' \<Rightarrow> VObj r' | None \<Rightarrow> VNull)]"

definition projection :: "string \<Rightarrow> table \<Rightarrow> db \<Rightarrow> string \<Rightarrow> exn + (row \<Rightarrow> row)" where
  "projection t tbl db s =
     (case parse_select s of
        SelAll \<Rightarrow> Inr id
      | SelCol c \<Rightarrow> if c \<in> set (t_cols tbl) then Inr (\<lambda>r. [(c, cell r c)]) else Inl (no_column t c)
      | SelEmbed t' \<Rightarrow>
          (case (filter (\<lambda>fk. snd fk = t') (t_fks tbl), map_of db t') of
             ([(c, _)], Some tgt) \<Rightarrow> Inr (embed c t' tgt)
           | ((_ # _ # _), _) \<Rightarrow>
               Inl (APIError ''Could not embed because more than one relationship was found'')
           | _ \<Rightarrow> Inl (APIError (''Could not find a relationship between '' @ t @ '' and '' @ t'))))"

section \<open>Writes\<close>

fun is_obj :: "pyval \<Rightarrow> bool" where
  "is_obj (VObj _) = True"
| "is_obj _ = False"

fun obj_dict :: "pyval \<Rightarrow> dict" where
  "obj_dict (VObj d) = d"
| "obj_dict _ = []"

text \<open>The rows of an insert payload: one object, or a list of objects with the same keys.\<close>

definition payload_rows :: "pyval \<Rightarrow> exn + row list" where
  "payload_rows v =
     (case v of
        VObj d \<Rightarrow> Inr [d]
      | VList vs \<Rightarrow>
          if \<not> list_all is_obj vs then Inl (APIError ''Empty or invalid json'')
          else (let ds = map obj_dict vs in
                if list_all (\<lambda>d. set (map fst d) = set (map fst (hd ds))) ds then Inr ds
                else Inl (APIError ''All object keys must match''))
      | _ \<Rightarrow> Inl (APIError ''Empty or invalid json''))"

definition unknown_key :: "string \<Rightarrow> table \<Rightarrow> row \<Rightarrow> exn option" where
  "unknown_key t tbl d =
     (case find (\<lambda>k. k \<notin> set (t_cols tbl)) (map fst d) of
        Some k \<Rightarrow> Some (APIError (''Could not find the '' @ k @ '' column of '' @ t @ '' in the schema cache''))
      | None \<Rightarrow> None)"

text \<open>A new row: the payload's value for the columns it names; \<open>id\<close> from the identity
  sequence when the payload has none; \<open>NULL\<close> for the other columns.\<close>

definition full_row :: "string list \<Rightarrow> int \<Rightarrow> row \<Rightarrow> row" where
  "full_row cols n d =
     map (\<lambda>c. (c, if c \<in> set (map fst d) then dict_get d c
                  else if c = ''id'' then VInt n else VNull)) cols"

fun new_rows :: "string list \<Rightarrow> int \<Rightarrow> row list \<Rightarrow> row list \<times> int" where
  "new_rows cols n [] = ([], n)"
| "new_rows cols n (d # ds) =
     (let n' = (if ''id'' \<in> set (map fst d) then n else n + 1);
          (rs, m) = new_rows cols n' ds
      in (full_row cols n d # rs, m))"

text \<open>Overwrite the payload's columns of a row, keeping the row's column order.\<close>

definition upd_row :: "row \<Rightarrow> row \<Rightarrow> row" where
  "upd_row d r = map (\<lambda>(c, x). (c, case map_of d c of Some v \<Rightarrow> v | None \<Rightarrow> x)) r"

fun is_int :: "pyval \<Rightarrow> bool" where
  "is_int (VInt _) = True"
| "is_int _ = False"

text \<open>The primary key constraint on the rows a write would leave.\<close>

definition key_error :: "row list \<Rightarrow> exn option" where
  "key_error rs =
     (if \<not> list_all (\<lambda>r. is_int (cell r ''id'')) rs
      then Some (APIError ''invalid input syntax for type bigint'')
      else if \<not> distinct (map (\<lambda>r. cell r ''id'') rs)
      then Some (APIError ''duplicate key value violates unique constraint'')
      else None)"

text \<open>The error of \<open>json.dumps\<close> on a payload that is not JSON.\<close>

definition unsafe_error :: "pyval \<Rightarrow> exn" where
  "unsafe_error v = not_serializable (case unsafe_type v of Some n \<Rightarrow> n | None \<Rightarrow> ''object'')"

section \<open>execute\<close>

definition no_table :: "string \<Rightarrow> exn" where
  "no_table t = APIError (''relation public.'' @ t @ '' does not exist'')"

definition exec_select :: "string \<Rightarrow> table \<Rightarrow> filt list \<Rightarrow> string \<Rightarrow> db \<Rightarrow> exn + (row list \<times> db)" where
  "exec_select t tbl fs cols db =
     (case filter_error t tbl fs of
        Some e \<Rightarrow> Inl e
      | None \<Rightarrow>
          (case projection t tbl db cols of
             Inl e \<Rightarrow> Inl e
           | Inr p \<Rightarrow> Inr (map p (filter (row_matches fs) (t_rows tbl)), db)))"

definition exec_insert :: "string \<Rightarrow> table \<Rightarrow> pyval \<Rightarrow> db \<Rightarrow> exn + (row list \<times> db)" where
  "exec_insert t tbl v db =
     (case payload_rows v of
        Inl e \<Rightarrow> Inl e
      | Inr ds \<Rightarrow>
          (case find (\<lambda>e. e \<noteq> None) (map (unknown_key t tbl) ds) of
             Some e \<Rightarrow> Inl (the e)
           | None \<Rightarrow>
               (let (rs, n) = new_rows (t_cols tbl) (t_next tbl) ds;
                    rows' = t_rows tbl @ rs
                in case key_error rows' of
                     Some e \<Rightarrow> Inl e
                   | None \<Rightarrow> Inr (rs, AList.update t (tbl\<lparr>t_rows := rows', t_next := n\<rparr>) db))))"

definition exec_update :: "string \<Rightarrow> table \<Rightarrow> filt list \<Rightarrow> pyval \<Rightarrow> db \<Rightarrow> exn + (row list \<times> db)" where
  "exec_update t tbl fs v db =
     (case v of
        VObj d \<Rightarrow>
          (case unknown_key t tbl d of
             Some e \<Rightarrow> Inl e
           | None \<Rightarrow>
              (case filter_error t tbl fs of
                 Some e \<Rightarrow> Inl e
               | None \<Rightarrow>
                   (let rows' = map (\<lambda>r. if row_matches fs r then upd_row d r else r) (t_rows tbl)
                    in case key_error rows' of
                         Some e \<Rightarrow> Inl e
                       | None \<Rightarrow> Inr (map (upd_row d) (filter (row_matches fs) (t_rows tbl)),
                                      AList.update t (tbl\<lparr>t_rows := rows'\<rparr>) db))))
      | _ \<Rightarrow> Inl (APIError ''Empty or invalid json''))"

definition exec_delete :: "string \<Rightarrow> table \<Rightarrow> filt list \<Rightarrow> db \<Rightarrow> exn + (row list \<times> db)" where
  "exec_delete t tbl fs db =
     (case filter_error t tbl fs of
        Some e \<Rightarrow> Inl e
      | None \<Rightarrow>
          Inr (filter (row_matches fs) (t_rows tbl),
               AList.update t (tbl\<lparr>t_rows := filter (\<lambda>r. \<not> row_matches fs r) (t_rows tbl)\<rparr>) db))"

text \<open>\<open>.execute()\<close>: the client serialises the payload first (\<open>TypeError\<close> on a date
  inside it), then the store looks the table up and runs the statement.\<close>

definition execute :: "query \<Rightarrow> db \<Rightarrow> exn + (row list \<times> db)" where
  "execute q db =
     (let t = q_table q; fs = q_filters q in
      case q_action q of
        AInsert v \<Rightarrow>
          if \<not> json_safe v then Inl (unsafe_error v)
          else (case map_of db t of None \<Rightarrow> Inl (no_table t) | Some tbl \<Rightarrow> exec_insert t tbl v db)
      | AUpdate v \<Rightarrow>
          if \<not> json_safe v then Inl (unsafe_error v)
          else (case map_of db t of None \<Rightarrow> Inl (no_table t) | Some tbl \<Rightarrow> exec_update t tbl fs v db)
      | ASelect cols \<Rightarrow>
          (case map_of db t of None \<Rightarrow> Inl (no_table t) | Some tbl \<Rightarrow> exec_select t tbl fs cols db)
      | ADelete \<Rightarrow>
          (case map_of db t of None \<Rightarrow> Inl (no_table t) | Some tbl \<Rightarrow> exec_delete t tbl fs db))"

section \<open>Well-formed stores\<close>

text \<open>
  The invariant of a table: distinct columns with \<open>id\<close> among them, foreign keys on
  its own columns, every row holds exactly the columns in table order and only JSON
  values, and the \<open>id\<close>s are integers without duplicates.
\<close>

definition table_ok :: "table \<Rightarrow> bool" where
  "table_ok tbl \<longleftrightarrow>
     distinct (t_cols tbl) \<and> ''id'' \<in> set (t_cols tbl) \<and>
     set (map fst (t_fks tbl)) \<subseteq> set (t_cols tbl) \<and>
     list_all (\<lambda>r. map fst r = t_cols tbl \<and> dict_safe r) (t_rows tbl) \<and>
     key_error (t_rows tbl) = None"

definition db_ok :: "db \<Rightarrow> bool" where
  "db_ok db \<longleftrightarrow> distinct (map fst db) \<and> list_all (\<lambda>e. table_ok (snd e)) db"

text \<open>The identity sequence is ahead of every stored id: each row's \<open>id\<close> is an integer
  below \<open>t_next\<close>. It holds of a table whose ids all came from the sequence, and
  makes the ids the sequence hands out next fresh.\<close>

definition ids_below :: "table \<Rightarrow> bool" where
  "ids_below tbl \<longleftrightarrow>
     list_all (\<lambda>r. case dict_get r ''id'' of VInt n \<Rightarrow> n < t_next tbl | _ \<Rightarrow> False) (t_rows tbl)"

section \<open>A sample store\<close>

text \<open>The \<open>workers\<close> table the HTTP handlers use (the columns \<open>add_worker\<close> writes)
  with one row, and a junction table whose \<open>worker_id\<close> references it: the concrete
  inputs of the witnesses.\<close>

definition sample_workers :: table where
  "sample_workers =
     \<lparr>t_cols = [''id'', ''name'', ''number'', ''Rate'', ''Suit'', ''Jacket'', ''Sadri'', ''Others''],
      t_fks = [],
      t_rows = [[(''id'', VInt 1), (''name'', VStr ''Ana''), (''number'', VStr ''555''),
                 (''Rate'', VInt 100), (''Suit'', VNull), (''Jacket'', VNull), (''Sadri'', VNull),
                 (''Others'', VNull)]],
      t_next = 2\<rparr>"

definition sample_links :: table where
  "sample_links =
     \<lparr>t_cols = [''id'', ''worker_id'', ''order_no''],
      t_fks = [(''worker_id'', ''workers'')],
      t_rows = [[(''id'', VInt 1), (''worker_id'', VInt 1), (''order_no'', VStr ''A1'')]],
      t_next = 2\<rparr>"

text \<open>The names of the specification's search example (section 8).\<close>

definition sample_people :: table where
  "sample_people =
     \<lparr>t_cols = [''id'', ''name''], t_fks = [],
      t_rows = [[(''id'', VInt 1), (''name'', VStr ''Ana'')], [(''id'', VInt 2), (''name'', VStr ''Anand'')],
                [(''id'', VInt 3), (''name'', VStr ''Banana'')], [(''id'', VInt 4), (''name'', VStr ''Bob'')]],
      t_next = 5\<rparr>"

text \<open>Dates as the store keeps them: ISO strings in a \<open>date\<close> column.\<close>

definition sample_daily :: table where
  "sample_daily =
     \<lparr>t_cols = [''id'', ''date'', ''amount''], t_fks = [],
      t_rows = [[(''id'', VInt 1), (''date'', VStr ''2024-03-01''), (''amount'', VInt 10)],
                [(''id'', VInt 2), (''date'', VStr ''2024-03-07''), (''amount'', VInt 20)],
                [(''id'', VInt 3), (''date'', VStr ''2024-03-09''), (''amount'', VInt 30)],
                [(''id'', VInt 4), (''date'', VNull), (''amount'', VInt 40)]],
      t_next = 5\<rparr>"

definition sample_db :: db where
  "sample_db = [(''workers'', sample_workers), (''worker_orders'', sample_links), (''people'', sample_people),
                (''Daily_Expenses'', sample_daily)]"

section \<open>Lemmas\<close>

lemmas sample_defs = sample_db_def sample_workers_def sample_links_def sample_people_def
  sample_daily_def

lemmas exec_defs = execute_def exec_select_def exec_insert_def exec_update_def exec_delete_def
  filter_error_def projection_def parse_select_def payload_rows_def unknown_key_def key_error_def
  row_matches_def full_row_def upd_row_def dict_get_def
  sb_select_def sb_insert_def sb_update_def sb_delete_def add_filter_def
  q_eq_def q_ilike_def q_gte_def q_lte_def Let_def

lemma update_same [simp]: "map_of db t = Some tbl \<Longrightarrow> AList.update t tbl db = db"
  by (induction db) (auto split: if_splits)

lemma list_all_update: "P (k, v) \<Longrightarrow> list_all P al \<Longrightarrow> list_all P (AList.update k v al)"
  by (induction al) auto

lemma db_ok_update: "db_ok db \<Longrightarrow> table_ok tbl \<Longrightarrow> db_ok (AList.update t tbl db)"
  by (auto simp: db_ok_def distinct_update list_all_update)

lemma db_ok_lookup: "db_ok db \<Longrightarrow> map_of db t = Some tbl \<Longrightarrow> table_ok tbl"
  by (auto simp: db_ok_def list_all_iff dest: map_of_SomeD)

lemma key_error_filter: "key_error rs = None \<Longrightarrow> key_error (filter P rs) = None"
  by (auto simp: key_error_def list_all_iff distinct_map_filter split: if_splits)

lemma table_ok_filter: "table_ok tbl \<Longrightarrow> table_ok (tbl\<lparr>t_rows := filter P (t_rows tbl)\<rparr>)"
  by (auto simp: table_ok_def list_all_iff key_error_filter)

lemma map_fst_full_row [simp]: "map fst (full_row cols n d) = cols"
  by (simp add: full_row_def comp_def)

lemma dict_safe_full_row: "dict_safe d \<Longrightarrow> dict_safe (full_row cols n d)"
  by (induction cols) (auto simp: full_row_def dict_get_safe)

lemma new_rows_Cons_fst [simp]:
  "fst (new_rows cols n (d # ds)) =
     full_row cols n d # fst (new_rows cols (if ''id'' \<in> set (map fst d) then n else n + 1) ds)"
  by (simp add: Let_def split: prod.split)

lemma new_rows_shape:
  "list_all dict_safe ds \<Longrightarrow> list_all (\<lambda>r. map fst r = cols \<and> dict_safe r) (fst (new_rows cols n ds))"
  by (induction ds arbitrary: n) (simp_all add: dict_safe_full_row del: new_rows.simps(2))

lemma map_fst_upd_row [simp]: "map fst (upd_row d r) = map fst r"
  by (induction r) (auto simp: upd_row_def)

lemma dict_safe_upd_row: "dict_safe d \<Longrightarrow> dict_safe r \<Longrightarrow> dict_safe (upd_row d r)"
  by (induction r) (auto simp: upd_row_def dest: dict_safe_map_of split: option.splits)

lemma obj_dicts_safe: "list_all json_safe vs \<Longrightarrow> list_all dict_safe (map obj_dict vs)"
proof (induction vs)
  case (Cons v vs)
  then show ?case by (cases v) auto
qed simp

lemma payload_rows_safe: "json_safe v \<Longrightarrow> payload_rows v = Inr ds \<Longrightarrow> list_all dict_safe ds"
  by (cases v) (auto simp: payload_rows_def Let_def obj_dicts_safe split: if_splits)

lemma exec_select_db: "exec_select t tbl fs cols db = Inr (rs, db') \<Longrightarrow> db' = db"
  by (auto simp: exec_select_def split: option.splits sum.splits)

lemma exec_delete_ok:
  assumes "db_ok db" "table_ok tbl" "exec_delete t tbl fs db = Inr (rs, db')"
  shows "db_ok db'"
  using assms by (auto simp: exec_delete_def intro: db_ok_update table_ok_filter split: option.splits)

lemma table_ok_rows:
  assumes "table_ok tbl" "list_all (\<lambda>r. map fst r = t_cols tbl \<and> dict_safe r) rows" "key_error rows = None"
  shows "table_ok (tbl\<lparr>t_rows := rows, t_next := n\<rparr>)" "table_ok (tbl\<lparr>t_rows := rows\<rparr>)"
  using assms by (simp_all add: table_ok_def)

lemma exec_insert_ok:
  assumes "db_ok db" "table_ok tbl" "json_safe v" "exec_insert t tbl v db = Inr (rs, db')"
  shows "db_ok db'"
proof -
  obtain ds where ds: "payload_rows v = Inr ds"
    using assms(4) by (auto simp: exec_insert_def split: sum.splits)
  then have "list_all dict_safe ds"
    using assms(3) by (rule payload_rows_safe [rotated])
  then have new: "list_all (\<lambda>r. map fst r = t_cols tbl \<and> dict_safe r) (fst (new_rows (t_cols tbl) (t_next tbl) ds))"
    by (rule new_rows_shape)
  from assms(2) have old: "list_all (\<lambda>r. map fst r = t_cols tbl \<and> dict_safe r) (t_rows tbl)"
    by (simp add: table_ok_def)
  from assms(4) ds new old show ?thesis
    by (auto simp: exec_insert_def Let_def split: option.splits prod.splits
        intro!: db_ok_update [OF assms(1)] table_ok_rows [OF assms(2)])
qed

lemma upd_rows_shape:
  assumes "dict_safe d" "list_all (\<lambda>r. map fst r = cols \<and> dict_safe r) rows"
  shows "list_all (\<lambda>r. map fst r = cols \<and> dict_safe r) (map (\<lambda>r. if P r then upd_row d r else r) rows)"
  using assms by (induction rows) (auto simp: dict_safe_upd_row)

lemma exec_update_ok:
  assumes "db_ok db" "table_ok tbl" "json_safe v" "exec_update t tbl fs v db = Inr (rs, db')"
  shows "db_ok db'"
proof -
  obtain d where d: "v = VObj d"
    using assms(4) by (cases v) (auto simp: exec_update_def)
  with assms(3) have "dict_safe d" by simp
  moreover from assms(2) have "list_all (\<lambda>r. map fst r = t_cols tbl \<and> dict_safe r) (t_rows tbl)"
    by (simp add: table_ok_def)
  ultimately have "list_all (\<lambda>r. map fst r = t_cols tbl \<and> dict_safe r)
      (map (\<lambda>r. if row_matches fs r then upd_row d r else r) (t_rows tbl))"
    by (rule upd_rows_shape)
  with assms(4) d show ?thesis
    by (auto simp: exec_update_def Let_def split: option.splits
        intro!: db_ok_update [OF assms(1)] table_ok_rows [OF assms(2)])
qed

text \<open>The store invariant is kept by every successful query.\<close>

lemma execute_preserves_db_ok:
  assumes "db_ok db" "execute q db = Inr (rs, db')"
  shows "db_ok db'"
proof (cases "q_action q")
  case (ASelect cols)
  with assms show ?thesis
    by (auto simp: execute_def Let_def dest: exec_select_db split: option.splits)
next
  case (AInsert v)
  with assms show ?thesis
    by (auto simp: execute_def Let_def split: option.splits if_splits
        intro: exec_insert_ok dest: db_ok_lookup)
next
  case (AUpdate v)
  with assms show ?thesis
    by (auto simp: execute_def Let_def split: option.splits if_splits
        intro: exec_update_ok dest: db_ok_lookup)
next
  case ADelete
  with assms show ?thesis
    by (auto simp: execute_def Let_def split: option.splits
        intro: exec_delete_ok dest: db_ok_lookup)
qed

lemma filter_error_eqs:
  "set (map fst kvs) \<subseteq> set (t_cols tbl) \<Longrightarrow>
   filter_error t tbl (map (\<lambda>kv. FEq (fst kv) (snd kv)) kvs) = None"
proof -
  assume "set (map fst kvs) \<subseteq> set (t_cols tbl)"
  then have "find (\<lambda>f. filt_col f \<notin> set (t_cols tbl)) (map (\<lambda>kv. FEq (fst kv) (snd kv)) kvs) = None"
    by (auto simp: find_None_iff)
  then show ?thesis
    by (simp add: filter_error_def list_all_iff)
qed

lemma row_matches_eqs:
  "row_matches (map (\<lambda>kv. FEq (fst kv) (snd kv)) kvs) =
   (\<lambda>r. list_all (\<lambda>kv. snd kv \<noteq> VNull \<and> dict_get r (fst kv) = snd kv) kvs)"
  by (induction kvs) (auto simp: row_matches_def fun_eq_iff)

lemma projection_star [simp]: "projection t tbl db ''*'' = Inr id"
  by (simp add: projection_def parse_select_def)

lemma execute_select_star:
  "map_of db t = Some tbl \<Longrightarrow> filter_error t tbl fs = None \<Longrightarrow>
   execute \<lparr>q_table = t, q_action = ASelect ''*'', q_filters = fs\<rparr> db =
     Inr (filter (row_matches fs) (t_rows tbl), db)"
  by (simp add: execute_def exec_select_def)

lemma map_of_map_cols:
  "map_of (map (\<lambda>c. (c, f c)) cols) k = (if k \<in> set cols then Some (f k) else None)"
  by (induction cols) auto

lemma dict_get_full_row:
  "dict_get (full_row cols n d) k =
     (if k \<in> set cols then (if k \<in> set (map fst d) then dict_get d k
        else if k = ''id'' then VInt n else VNull) else VNull)"
  by (simp add: full_row_def dict_get_def map_of_map_cols del: set_map)

lemma key_error_snoc:
  assumes "key_error rs = None" "is_int (dict_get r ''id'')"
    "dict_get r ''id'' \<notin> set (map (\<lambda>r. dict_get r ''id'') rs)"
  shows "key_error (rs @ [r]) = None"
  using assms by (simp add: key_error_def split: if_splits)

lemma unknown_key_None:
  "set (map fst d) \<subseteq> set (t_cols tbl) \<Longrightarrow> unknown_key t tbl d = None"
  by (auto simp: unknown_key_def find_None_iff split: option.splits)

lemma exec_insert_one:
  assumes "table_ok tbl" "set (map fst d) \<subseteq> set (t_cols tbl)" "''id'' \<notin> set (map fst d)"
    "VInt (t_next tbl) \<notin> set (map (\<lambda>r. dict_get r ''id'') (t_rows tbl))"
  shows "exec_insert t tbl (VObj d) db =
     Inr ([full_row (t_cols tbl) (t_next tbl) d],
          AList.update t (tbl\<lparr>t_rows := t_rows tbl @ [full_row (t_cols tbl) (t_next tbl) d],
                              t_next := t_next tbl + 1\<rparr>) db)"
proof -
  let ?r = "full_row (t_cols tbl) (t_next tbl) d"
  have id: "dict_get ?r ''id'' = VInt (t_next tbl)"
    using assms(1,3) by (simp add: dict_get_full_row table_ok_def del: set_map)
  have "key_error (t_rows tbl @ [?r]) = None"
    using assms(1,4) id by (intro key_error_snoc) (simp_all add: table_ok_def)
  with assms(2,3) show ?thesis
    by (simp add: exec_insert_def payload_rows_def unknown_key_None Let_def del: set_map)
qed


lemma filter_error_id:
  "''id'' \<in> set (t_cols tbl) \<Longrightarrow> filter_error t tbl [FEq ''id'' (VInt i)] = None"
  using filter_error_eqs [of "[(''id'', VInt i)]" tbl t] by simp

lemma row_matches_id: "row_matches [FEq ''id'' (VInt i)] = (\<lambda>r. dict_get r ''id'' = VInt i)"
  by (auto simp: row_matches_def fun_eq_iff)

lemma execute_select_col:
  assumes "map_of db t = Some tbl" "filter_error t tbl fs = None"
    and "parse_select c = SelCol c" "c \<in> set (t_cols tbl)"
  shows "execute \<lparr>q_table = t, q_action = ASelect c, q_filters = fs\<rparr> db =
     Inr (map (\<lambda>r. [(c, dict_get r c)]) (filter (row_matches fs) (t_rows tbl)), db)"
  using assms by (simp add: execute_def exec_select_def projection_def)

section \<open>Updates by id\<close>

lemma map_of_upd_row:
  "map_of (upd_row d r) k = map_option (\<lambda>x. case map_of d k of Some v \<Rightarrow> v | None \<Rightarrow> x) (map_of r k)"
  by (induction r) (auto simp: upd_row_def split: option.split)

lemma dict_get_upd_row:
  "k \<in> set (map fst r) \<Longrightarrow> dict_get (upd_row d r) k = (case map_of d k of Some v \<Rightarrow> v | None \<Rightarrow> dict_get r k)"
  by (auto simp: dict_get_def map_of_upd_row split: option.splits dest: weak_map_of_SomeI)

lemma dict_get_upd_row_other: "k \<notin> set (map fst d) \<Longrightarrow> dict_get (upd_row d r) k = dict_get r k"
proof -
  assume "k \<notin> set (map fst d)"
  then have "map_of d k = None" by (simp add: map_of_eq_None_iff)
  then show ?thesis by (simp add: dict_get_def map_of_upd_row split: option.split)
qed

lemma filter_unique:
  "distinct (map f xs) \<Longrightarrow> find (\<lambda>x. f x = v) xs = Some r \<Longrightarrow> filter (\<lambda>x. f x = v) xs = [r]"
  by (induction xs) (auto simp: filter_empty_conv image_iff split: if_splits)

lemma key_error_ids:
  "key_error rs =
     (if \<not> list_all is_int (map (\<lambda>r. dict_get r ''id'') rs)
      then Some (APIError ''invalid input syntax for type bigint'')
      else if \<not> distinct (map (\<lambda>r. dict_get r ''id'') rs)
      then Some (APIError ''duplicate key value violates unique constraint'')
      else None)"
  by (simp add: key_error_def list_all_iff)

lemma key_error_upd_rows:
  "''id'' \<notin> set (map fst d) \<Longrightarrow> key_error (map (\<lambda>r. if P r then upd_row d r else r) rs) = key_error rs"
proof -
  assume "''id'' \<notin> set (map fst d)"
  then have "map (\<lambda>r. dict_get r ''id'') (map (\<lambda>r. if P r then upd_row d r else r) rs) =
             map (\<lambda>r. dict_get r ''id'') rs"
    by (simp add: dict_get_upd_row_other)
  then show ?thesis
    by (simp only: key_error_ids)
qed

text \<open>An update filtered by \<open>id\<close>: the row with that id, if any, gets the payload's
  values; the store answers with the updated rows.\<close>

lemma exec_update_id:
  assumes "table_ok tbl" "set (map fst d) \<subseteq> set (t_cols tbl)" "''id'' \<notin> set (map fst d)"
  shows "exec_update t tbl [FEq ''id'' (VInt i)] (VObj d) db =
    Inr (map (upd_row d) (filter (\<lambda>r. dict_get r ''id'' = VInt i) (t_rows tbl)),
         AList.update t (tbl\<lparr>t_rows := map (\<lambda>r. if dict_get r ''id'' = VInt i then upd_row d r else r)
                                        (t_rows tbl)\<rparr>) db)"
  using assms
  by (simp add: exec_update_def unknown_key_None filter_error_id row_matches_id key_error_upd_rows
      table_ok_def del: set_map)

lemma find_by_id_upd_rows:
  "''id'' \<notin> set (map fst d) \<Longrightarrow>
   find_by_id (map (\<lambda>r. if dict_get r ''id'' = v then upd_row d r else r) rs) v =
   map_option (upd_row d) (find_by_id rs v)"
  by (induction rs) (simp_all add: find_by_id_def dict_get_upd_row_other)

section \<open>Embedding\<close>

lemma parse_select_embed: "parse_select (t @ ''(*)'') = SelEmbed t"
proof -
  have "t @ ''(*)'' \<noteq> ''*''" by (cases t) auto
  then show ?thesis by (auto simp: parse_select_def suffix_def)
qed

lemma execute_select_embed:
  assumes "map_of db jt = Some jtbl" "filter_error jt jtbl fs = None"
    and "filter (\<lambda>fk. snd fk = t) (t_fks jtbl) = [(c, t)]" "map_of db t = Some tgt"
  shows "execute \<lparr>q_table = jt, q_action = ASelect (t @ ''(*)''), q_filters = fs\<rparr> db =
     Inr (map (embed c t tgt) (filter (row_matches fs) (t_rows jtbl)), db)"
  using assms by (simp add: execute_def exec_select_def projection_def parse_select_embed)

section \<open>Inserts from the identity sequence\<close>

abbreviation no_id :: "dict list \<Rightarrow> bool" where
  "no_id ds \<equiv> list_all (\<lambda>d. ''id'' \<notin> set (map fst d)) ds"

lemma new_rows_next:
  "no_id ds \<Longrightarrow> snd (new_rows cols n ds) = n + int (length ds)"
  by (induction ds arbitrary: n) (simp_all add: Let_def case_prod_unfold)

lemma new_rows_ids:
  "no_id ds \<Longrightarrow> ''id'' \<in> set cols \<Longrightarrow>
   map (\<lambda>r. dict_get r ''id'') (fst (new_rows cols n ds)) = map (\<lambda>k. VInt (n + int k)) [0..<length ds]"
proof (induction ds arbitrary: n)
  case Nil
  then show ?case by simp
next
  case (Cons d ds)
  then have "map (\<lambda>r. dict_get r ''id'') (fst (new_rows cols (n + 1) ds)) =
             map (\<lambda>k. VInt (n + 1 + int k)) [0..<length ds]" by simp
  moreover have "map (\<lambda>k. VInt (n + int k)) [0..<Suc (length ds)] =
                 VInt n # map (\<lambda>k. VInt (n + 1 + int k)) [0..<length ds]"
    by (simp add: upt_conv_Cons map_Suc_upt [symmetric] del: upt_Suc)
  ultimately show ?case
    using Cons.prems by (simp add: dict_get_full_row del: new_rows.simps(2) set_map)
qed

lemma case_VInt_iff: "(case v of VInt n \<Rightarrow> P n | _ \<Rightarrow> False) \<longleftrightarrow> (\<exists>n. v = VInt n \<and> P n)"
  by (cases v) auto

lemma ids_below_iff:
  "ids_below tbl \<longleftrightarrow> (\<forall>r \<in> set (t_rows tbl). \<exists>n. dict_get r ''id'' = VInt n \<and> n < t_next tbl)"
  unfolding ids_below_def list_all_iff by (rule ball_cong [OF refl case_VInt_iff])

lemma ids_below_ids:
  "ids_below tbl \<Longrightarrow> \<forall>v \<in> set (map (\<lambda>r. dict_get r ''id'') (t_rows tbl)). \<exists>n. v = VInt n \<and> n < t_next tbl"
  unfolding ids_below_iff by simp

lemma key_error_new_rows:
  assumes tok: "table_ok tbl" and below: "ids_below tbl" and ds: "no_id ds"
  shows "key_error (t_rows tbl @ fst (new_rows (t_cols tbl) (t_next tbl) ds)) = None"
proof -
  let ?old = "map (\<lambda>r. dict_get r ''id'') (t_rows tbl)"
  let ?new = "map (\<lambda>k. VInt (t_next tbl + int k)) [0..<length ds]"
  have new: "map (\<lambda>r. dict_get r ''id'') (fst (new_rows (t_cols tbl) (t_next tbl) ds)) = ?new"
    using tok ds by (simp add: new_rows_ids table_ok_def)
  have old: "\<forall>v \<in> set ?old. \<exists>n. v = VInt n \<and> n < t_next tbl"
    using below by (rule ids_below_ids)
  have "distinct ?old" using tok by (simp add: table_ok_def key_error_ids split: if_splits)
  moreover have "distinct ?new" by (simp add: distinct_map inj_on_def)
  moreover have "set ?old \<inter> set ?new = {}" using old by fastforce
  ultimately have d: "distinct (?old @ ?new)" by (simp only: distinct_append)
  have "list_all is_int ?old" using old by (auto simp: list_all_iff)
  moreover have "list_all is_int ?new" by (simp add: list_all_iff)
  ultimately have i: "list_all is_int (?old @ ?new)" by (simp only: list_all_append)
  show ?thesis
    by (simp only: key_error_ids map_append new d i not_True_eq_False if_False)
qed

lemma ids_below_insert:
  assumes below: "ids_below tbl" and ds: "no_id ds" and cols: "''id'' \<in> set (t_cols tbl)"
  shows "ids_below (tbl\<lparr>t_rows := t_rows tbl @ fst (new_rows (t_cols tbl) (t_next tbl) ds),
                      t_next := t_next tbl + int (length ds)\<rparr>)"
proof -
  have new: "map (\<lambda>r. dict_get r ''id'') (fst (new_rows (t_cols tbl) (t_next tbl) ds)) =
             map (\<lambda>k. VInt (t_next tbl + int k)) [0..<length ds]"
    using ds cols by (rule new_rows_ids)
  have "\<forall>r \<in> set (fst (new_rows (t_cols tbl) (t_next tbl) ds)).
          \<exists>n. dict_get r ''id'' = VInt n \<and> n < t_next tbl + int (length ds)"
  proof
    fix r assume "r \<in> set (fst (new_rows (t_cols tbl) (t_next tbl) ds))"
    then have "dict_get r ''id'' \<in> set (map (\<lambda>k. VInt (t_next tbl + int k)) [0..<length ds])"
      unfolding new [symmetric] by simp
    then show "\<exists>n. dict_get r ''id'' = VInt n \<and> n < t_next tbl + int (length ds)"
      by auto
  qed
  moreover have "\<forall>r \<in> set (t_rows tbl). \<exists>n. dict_get r ''id'' = VInt n \<and> n < t_next tbl + int (length ds)"
  proof
    fix r assume "r \<in> set (t_rows tbl)"
    then obtain n where "dict_get r ''id'' = VInt n" "n < t_next tbl"
      using below unfolding ids_below_iff by blast
    then show "\<exists>n. dict_get r ''id'' = VInt n \<and> n < t_next tbl + int (length ds)" by auto
  qed
  ultimately show ?thesis
    by (simp add: ids_below_iff ball_Un)
qed

lemma exec_insert_rows:
  assumes tok: "table_ok tbl" and below: "ids_below tbl" and pl: "payload_rows v = Inr ds"
    and keys: "\<forall>d \<in> set ds. set (map fst d) \<subseteq> set (t_cols tbl)" and ds: "no_id ds"
  shows "exec_insert t tbl v db =
    Inr (fst (new_rows (t_cols tbl) (t_next tbl) ds),
         AList.update t (tbl\<lparr>t_rows := t_rows tbl @ fst (new_rows (t_cols tbl) (t_next tbl) ds),
                             t_next := t_next tbl + int (length ds)\<rparr>) db)"
proof -
  have "find (\<lambda>e. e \<noteq> None) (map (unknown_key t tbl) ds) = None"
    using keys by (simp add: find_None_iff unknown_key_None)
  moreover obtain rs where nr: "new_rows (t_cols tbl) (t_next tbl) ds = (rs, t_next tbl + int (length ds))"
    using new_rows_next [OF ds] by (metis prod.collapse)
  ultimately show ?thesis
    using pl key_error_new_rows [OF tok below ds] by (simp add: exec_insert_def)
qed

end
