(* ===== verification/Repository.thy ===== *)
theory Repository
  imports Store
begin

text \<open>
  \<open>SupabaseHelper\<close> of \<open>src/back/supabase_config.py\<close>: the date helpers, the
  generic CRUD operations, search, date ranges, column sums and the junction-table helpers,
  and the module's convenience functions. Each operation takes the store and returns the
  exception it lets through, or its result and the store after it.
\<close>

type_synonym 'a result = "exn + ('a \<times> db)"

section \<open>Date helpers\<close>

text \<open>\<open>isinstance(v, (date, datetime))\<close>.\<close>

fun is_date_value :: "pyval \<Rightarrow> bool" where
  "is_date_value (VDate _) = True"
| "is_date_value (VDateTime _) = True"
| "is_date_value _ = False"

definition format_date :: "pyval \<Rightarrow> pyval" where
  "format_date v =
     (case v of
        VDate d \<Rightarrow> VStr (date_isoformat d)
      | VDateTime t \<Rightarrow> VStr (datetime_isoformat t)
      | _ \<Rightarrow> v)"

text \<open>\<open>s.replace(c, r)\<close> for a one-character \<open>c\<close>.\<close>

definition replace_char :: "char \<Rightarrow> string \<Rightarrow> string \<Rightarrow> string" where
  "replace_char c r s = concat (map (\<lambda>x. if x = c then r else [x]) s)"

definition parse_date :: "pyval \<Rightarrow> exn + pyval" where
  "parse_date v =
     (case v of
        VStr s \<Rightarrow>
          (case fromisoformat_date (replace_char (CHR ''Z'') ''+00:00'' s) of
             Inl m \<Rightarrow> Inl (ValueError m)
           | Inr d \<Rightarrow> Inr (VDate d))
      | _ \<Rightarrow> Inr v)"

section \<open>Response helpers\<close>

text \<open>\<open>response.data if response.data else []\<close>\<close>

definition data_or_empty :: "row list \<Rightarrow> row list" where
  "data_or_empty rs = (if rs \<noteq> [] then rs else [])"

text \<open>\<open>response.data[0] if response.data else None\<close>\<close>

definition first_or_none :: "row list \<Rightarrow> row option" where
  "first_or_none rs = (if rs \<noteq> [] then Some (hd rs) else None)"

text \<open>\<open>len(response.data) > 0 if response.data else False\<close>\<close>

definition any_rows :: "row list \<Rightarrow> bool" where
  "any_rows rs = (if rs \<noteq> [] then 0 < length rs else False)"

text \<open>\<open>for key, value in filters.items(): query = query.eq(key, value)\<close>\<close>

definition apply_filters :: "query \<Rightarrow> dict \<Rightarrow> query" where
  "apply_filters q fs = foldl (\<lambda>q kv. q_eq q (fst kv) (snd kv)) q fs"

text \<open>The loop of \<open>create\<close> and \<open>update\<close> that formats dates before writing.\<close>

definition format_data :: "dict \<Rightarrow> dict" where
  "format_data d = map (\<lambda>kv. (fst kv, if is_date_value (snd kv) then format_date (snd kv) else snd kv)) d"

section \<open>Generic CRUD operations\<close>

definition get_all :: "string \<Rightarrow> dict option \<Rightarrow> db \<Rightarrow> row list result" where
  "get_all t filters db =
     (let q0 = sb_select t ''*'';
          q = (case filters of Some fs \<Rightarrow> if fs \<noteq> [] then apply_filters q0 fs else q0 | None \<Rightarrow> q0)
      in case execute q db of
           Inl e \<Rightarrow> Inl e
         | Inr (rs, db') \<Rightarrow> Inr (data_or_empty rs, db'))"

definition get_by_id :: "string \<Rightarrow> int \<Rightarrow> db \<Rightarrow> row option result" where
  "get_by_id t i db =
     (case execute (q_eq (sb_select t ''*'') ''id'' (VInt i)) db of
        Inl e \<Rightarrow> Inl e
      | Inr (rs, db') \<Rightarrow> Inr (first_or_none rs, db'))"

definition create :: "string \<Rightarrow> dict \<Rightarrow> db \<Rightarrow> row option result" where
  "create t d db =
     (case execute (sb_insert t (VObj (format_data d))) db of
        Inl e \<Rightarrow> Inl e
      | Inr (rs, db') \<Rightarrow> Inr (first_or_none rs, db'))"

definition update :: "string \<Rightarrow> int \<Rightarrow> dict \<Rightarrow> db \<Rightarrow> row option result" where
  "update t i d db =
     (case execute (q_eq (sb_update t (VObj (format_data d))) ''id'' (VInt i)) db of
        Inl e \<Rightarrow> Inl e
      | Inr (rs, db') \<Rightarrow> Inr (first_or_none rs, db'))"

definition delete :: "string \<Rightarrow> int \<Rightarrow> db \<Rightarrow> bool result" where
  "delete t i db =
     (case execute (q_eq (sb_delete t) ''id'' (VInt i)) db of
        Inl e \<Rightarrow> Inl e
      | Inr (rs, db') \<Rightarrow> Inr (any_rows rs, db'))"

definition search :: "string \<Rightarrow> string \<Rightarrow> string \<Rightarrow> db \<Rightarrow> row list result" where
  "search t c term db =
     (case execute (q_ilike (sb_select t ''*'') c (''%'' @ term @ ''%'')) db of
        Inl e \<Rightarrow> Inl e
      | Inr (rs, db') \<Rightarrow> Inr (data_or_empty rs, db'))"

definition get_by_date_range :: "string \<Rightarrow> string \<Rightarrow> date \<Rightarrow> date \<Rightarrow> db \<Rightarrow> row list result" where
  "get_by_date_range t c s e db =
     (case execute (q_lte (q_gte (sb_select t ''*'') c (date_isoformat s)) c (date_isoformat e)) db of
        Inl e \<Rightarrow> Inl e
      | Inr (rs, db') \<Rightarrow> Inr (data_or_empty rs, db'))"

section \<open>Sums\<close>

text \<open>Python's \<open>+\<close> on the numbers \<open>sum\<close> meets: \<open>bool\<close> and \<open>int\<close> add as
  integers, anything with a \<open>float\<close> as a float, anything else is a \<open>TypeError\<close>.\<close>

fun as_int :: "pyval \<Rightarrow> int option" where
  "as_int (VInt i) = Some i"
| "as_int (VBool b) = Some (if b then 1 else 0)"
| "as_int _ = None"

fun as_num :: "pyval \<Rightarrow> rat option" where
  "as_num (VFloat r) = Some r"
| "as_num v = map_option of_int (as_int v)"

definition py_add :: "pyval \<Rightarrow> pyval \<Rightarrow> exn + pyval" where
  "py_add x y =
     (case (as_int x, as_int y) of
        (Some a, Some b) \<Rightarrow> Inr (VInt (a + b))
      | _ \<Rightarrow>
        (case (as_num x, as_num y) of
           (Some a, Some b) \<Rightarrow> Inr (VFloat (a + b))
         | _ \<Rightarrow> Inl (TypeError (''unsupported operand type(s) for +: '' @
                  CHR 0x27 # type_name x @ CHR 0x27 # '' and '' @ CHR 0x27 # type_name y @ [CHR 0x27]))))"

text \<open>\<open>sum(xs)\<close>: left to right from the integer \<open>0\<close>.\<close>

fun py_sum_from :: "pyval \<Rightarrow> pyval list \<Rightarrow> exn + pyval" where
  "py_sum_from acc [] = Inr acc"
| "py_sum_from acc (x # xs) = (case py_add acc x of Inl e \<Rightarrow> Inl e | Inr a \<Rightarrow> py_sum_from a xs)"

text \<open>\<open>item.get(column, 0) or 0\<close>\<close>

definition sum_term :: "string \<Rightarrow> row \<Rightarrow> pyval" where
  "sum_term c item =
     (let x = (case map_of item c of Some v \<Rightarrow> v | None \<Rightarrow> VInt 0) in if truthy x then x else VInt 0)"

definition sum_column :: "string \<Rightarrow> string \<Rightarrow> dict option \<Rightarrow> db \<Rightarrow> pyval result" where
  "sum_column t c filters db =
     (let q0 = sb_select t c;
          q = (case filters of Some fs \<Rightarrow> if fs \<noteq> [] then apply_filters q0 fs else q0 | None \<Rightarrow> q0)
      in case execute q db of
           Inl e \<Rightarrow> Inl e
         | Inr (rs, db') \<Rightarrow>
             if rs \<noteq> [] then
               (case py_sum_from (VInt 0) (map (sum_term c) rs) of
                  Inl e \<Rightarrow> Inl e
                | Inr s \<Rightarrow> Inr (s, db'))
             else Inr (VFloat 0, db'))"

section \<open>Many-to-many helpers\<close>

definition get_related_records :: "string \<Rightarrow> string \<Rightarrow> string \<Rightarrow> int \<Rightarrow> db \<Rightarrow> row list result" where
  "get_related_records t jt fk i db =
     (case execute (q_eq (sb_select jt (t @ ''(*)'')) fk (VInt i)) db of
        Inl e \<Rightarrow> Inl e
      | Inr (rs, db') \<Rightarrow> Inr (data_or_empty rs, db'))"

definition add_related_records :: "string \<Rightarrow> dict list \<Rightarrow> db \<Rightarrow> bool result" where
  "add_related_records jt data db =
     (case execute (sb_insert jt (VList (map VObj data))) db of
        Inl e \<Rightarrow> Inl e
      | Inr (rs, db') \<Rightarrow> Inr (any_rows rs, db'))"

definition remove_related_records :: "string \<Rightarrow> dict \<Rightarrow> db \<Rightarrow> bool result" where
  "remove_related_records jt filters db =
     (case execute (apply_filters (sb_delete jt) filters) db of
        Inl e \<Rightarrow> Inl e
      | Inr (rs, db') \<Rightarrow> Inr (any_rows rs, db'))"

section \<open>Convenience functions\<close>

definition get_workers :: "db \<Rightarrow> row list result" where
  "get_workers db = get_all ''workers'' None db"

definition get_orders :: "db \<Rightarrow> row list result" where
  "get_orders db = get_all ''orders'' None db"

definition get_bills :: "db \<Rightarrow> row list result" where
  "get_bills db = get_all ''bills'' None db"

definition get_worker_expenses :: "db \<Rightarrow> row list result" where
  "get_worker_expenses db = get_all ''Worker_Expense'' None db"

definition get_daily_expenses :: "db \<Rightarrow> row list result" where
  "get_daily_expenses db = get_all ''Daily_Expenses'' None db"

definition get_measurements :: "db \<Rightarrow> row list result" where
  "get_measurements db = get_all ''measurements'' None db"

section \<open>Abstract specification\<close>

text \<open>What \<open>get_all\<close> promises (specification, section 4.1): the rows of the table
  in which every filter key holds the given value, a conjunction over the filters.\<close>

definition matching_rows :: "row list \<Rightarrow> dict \<Rightarrow> row list" where
  "matching_rows rs fs =
     filter (\<lambda>r. list_all (\<lambda>kv. snd kv \<noteq> VNull \<and> dict_get r (fst kv) = snd kv) fs) rs"

text \<open>A cell holding a date as the store keeps it: the ISO string of a valid date, or
  \<open>NULL\<close>; and what \<open>get_by_date_range\<close> promises of a cell (specification,
  section 4.1): a date between the bounds, both included.\<close>

definition iso_date_cell :: "pyval \<Rightarrow> bool" where
  "iso_date_cell v =
     (case v of
        VNull \<Rightarrow> True
      | VStr x \<Rightarrow> (case fromisoformat_date x of Inr d \<Rightarrow> valid_date d \<and> date_isoformat d = x | Inl _ \<Rightarrow> False)
      | _ \<Rightarrow> False)"

definition in_date_range :: "date \<Rightarrow> date \<Rightarrow> pyval \<Rightarrow> bool" where
  "in_date_range s e v =
     (case v of
        VStr x \<Rightarrow> (case fromisoformat_date x of Inr d \<Rightarrow> date_le s d \<and> date_le d e | Inl _ \<Rightarrow> False)
      | _ \<Rightarrow> False)"

text \<open>Cells \<open>sum_column\<close> adds as integers: an \<open>int\<close>, or \<open>NULL\<close> read as 0.\<close>

fun int_cell :: "pyval \<Rightarrow> int option" where
  "int_cell (VInt n) = Some n"
| "int_cell VNull = Some 0"
| "int_cell _ = None"

section \<open>Lemmas\<close>

lemma apply_filters_eq:
  "apply_filters q fs = q\<lparr>q_filters := q_filters q @ map (\<lambda>kv. FEq (fst kv) (snd kv)) fs\<rparr>"
  by (induction fs arbitrary: q) (simp_all add: apply_filters_def q_eq_def add_filter_def)

lemma data_or_empty_id [simp]: "data_or_empty rs = rs"
  by (simp add: data_or_empty_def)

text \<open>
  C1. \<open>get_all(table, filters)\<close> refines its specification: on an existing table whose
  columns include the filter keys, it returns exactly the rows in which every filter key
  equals its value (a conjunction), in storage order, and leaves the store unchanged.
\<close>

theorem get_all_conjunctive:
  assumes "map_of db t = Some tbl" "set (map fst fs) \<subseteq> set (t_cols tbl)"
  shows "get_all t (Some fs) db = Inr (matching_rows (t_rows tbl) fs, db)"
proof (cases "fs = []")
  case True
  with assms(1) show ?thesis
    by (simp add: get_all_def sb_select_def matching_rows_def execute_select_star filter_error_def row_matches_def)
next
  case False
  with assms show ?thesis
    by (simp add: get_all_def sb_select_def apply_filters_eq matching_rows_def
        execute_select_star filter_error_eqs row_matches_eqs)
qed


lemma get_all_None: "map_of db t = Some tbl \<Longrightarrow> get_all t None db = Inr (t_rows tbl, db)"
  by (simp add: get_all_def sb_select_def execute_select_star filter_error_def row_matches_def)

lemma first_or_none_filter: "first_or_none (filter P xs) = find P xs"
  by (induction xs) (auto simp: first_or_none_def)

lemma get_by_id_eq:
  assumes "map_of db t = Some tbl" "''id'' \<in> set (t_cols tbl)"
  shows "get_by_id t i db = Inr (find_by_id (t_rows tbl) (VInt i), db)"
proof -
  have "filter_error t tbl [FEq ''id'' (VInt i)] = None"
    using filter_error_eqs [of "[(''id'', VInt i)]" tbl t] assms(2) by simp
  moreover have "row_matches [FEq ''id'' (VInt i)] = (\<lambda>r. dict_get r ''id'' = VInt i)"
    by (auto simp: row_matches_def fun_eq_iff)
  ultimately show ?thesis using assms(1)
    by (simp add: get_by_id_def q_eq_def add_filter_def sb_select_def execute_select_star
        first_or_none_filter find_by_id_def)
qed

lemma format_date_non_date: "\<not> is_date_value v \<Longrightarrow> format_date v = v"
  by (cases v) (simp_all add: format_date_def)

lemma format_data_keys [simp]: "map fst (format_data d) = map fst d"
  by (simp add: format_data_def comp_def)

lemma format_data_eq: "format_data d = map (\<lambda>kv. (fst kv, format_date (snd kv))) d"
  by (simp add: format_data_def format_date_non_date)

lemma dict_get_absent: "k \<notin> set (map fst d) \<Longrightarrow> dict_get d k = VNull"
proof -
  assume "k \<notin> set (map fst d)"
  then have "map_of d k = None" by (simp add: map_of_eq_None_iff)
  then show ?thesis by (simp add: dict_get_def)
qed

lemma dict_get_format_data: "dict_get (format_data d) k = format_date (dict_get d k)"
  by (simp add: format_data_eq dict_get_def map_of_map_values split: option.split)
    (simp add: format_date_def)

lemma format_data_safe:
  "list_all (\<lambda>kv. json_safe (format_date (snd kv))) d \<Longrightarrow> dict_safe (format_data d)"
  by (induction d) (auto simp: format_data_def format_date_non_date)

lemma create_eq:
  assumes ok: "db_ok db" and tbl: "map_of db t = Some tbl"
    and keys: "set (map fst d) \<subseteq> set (t_cols tbl)" "''id'' \<notin> set (map fst d)"
    and safe: "list_all (\<lambda>kv. json_safe (format_date (snd kv))) d"
    and fresh: "VInt (t_next tbl) \<notin> set (map (\<lambda>r. dict_get r ''id'') (t_rows tbl))"
  shows "create t d db =
     Inr (Some (full_row (t_cols tbl) (t_next tbl) (format_data d)),
          AList.update t (tbl\<lparr>t_rows := t_rows tbl @ [full_row (t_cols tbl) (t_next tbl) (format_data d)],
                              t_next := t_next tbl + 1\<rparr>) db)"
proof -
  have tok: "table_ok tbl" using ok tbl by (rule db_ok_lookup)
  then show ?thesis
    using exec_insert_one [OF tok, of "format_data d" t db] keys fresh safe tbl
    by (simp add: create_def execute_def sb_insert_def format_data_safe first_or_none_def del: set_map)
qed

lemma get_by_id_after_insert:
  assumes tok: "table_ok tbl"
    and fresh: "VInt (t_next tbl) \<notin> set (map (\<lambda>r. dict_get r ''id'') (t_rows tbl))"
    and rid: "dict_get r ''id'' = VInt (t_next tbl)"
  shows "get_by_id t (t_next tbl)
           (AList.update t (tbl\<lparr>t_rows := t_rows tbl @ [r], t_next := t_next tbl + 1\<rparr>) db) =
         Inr (Some r, AList.update t (tbl\<lparr>t_rows := t_rows tbl @ [r], t_next := t_next tbl + 1\<rparr>) db)"
proof -
  let ?tbl' = "tbl\<lparr>t_rows := t_rows tbl @ [r], t_next := t_next tbl + 1\<rparr>"
  have "find (\<lambda>r. dict_get r ''id'' = VInt (t_next tbl)) (t_rows tbl) = None"
    using fresh by (force simp: find_None_iff)
  then have "find_by_id (t_rows tbl @ [r]) (VInt (t_next tbl)) = Some r"
    using rid by (simp add: find_by_id_def find_append)
  moreover have "''id'' \<in> set (t_cols ?tbl')" using tok by (simp add: table_ok_def)
  ultimately show ?thesis
    using get_by_id_eq [of "AList.update t ?tbl' db" t ?tbl'] by (simp add: update_conv')
qed

lemma full_row_fields:
  assumes "''id'' \<notin> set (map fst d)"
  shows "\<forall>k \<in> set cols. k \<noteq> ''id'' \<longrightarrow> dict_get (full_row cols n (format_data d)) k = format_date (dict_get d k)"
proof (intro ballI impI)
  fix k assume "k \<in> set cols" "k \<noteq> ''id''"
  then show "dict_get (full_row cols n (format_data d)) k = format_date (dict_get d k)"
    by (cases "k \<in> set (map fst d)")
      (simp_all add: dict_get_full_row dict_get_format_data dict_get_absent format_date_def del: set_map)
qed

text \<open>
  C2. Round trip of \<open>create\<close> and \<open>get_by_id\<close>: on a well-formed store, creating a
  record whose keys are columns of the table (no explicit \<open>id\<close>), with no date nested
  inside a value, succeeds with a row that gets the next identity value and holds every
  input field after ISO-8601 formatting of dates; \<open>get_by_id\<close> with that id then
  returns that row, and the store stays well-formed.
\<close>

theorem create_get_by_id_roundtrip:
  assumes ok: "db_ok db" and tbl: "map_of db t = Some tbl"
    and keys: "set (map fst d) \<subseteq> set (t_cols tbl)" "''id'' \<notin> set (map fst d)"
    and safe: "list_all (\<lambda>kv. json_safe (format_date (snd kv))) d"
    and fresh: "VInt (t_next tbl) \<notin> set (map (\<lambda>r. dict_get r ''id'') (t_rows tbl))"
  shows "\<exists>r db'. create t d db = Inr (Some r, db') \<and> db_ok db' \<and>
           dict_get r ''id'' = VInt (t_next tbl) \<and>
           (\<forall>k \<in> set (t_cols tbl). k \<noteq> ''id'' \<longrightarrow> dict_get r k = format_date (dict_get d k)) \<and>
           get_by_id t (t_next tbl) db' = Inr (Some r, db')"
proof -
  let ?r = "full_row (t_cols tbl) (t_next tbl) (format_data d)"
  let ?db' = "AList.update t (tbl\<lparr>t_rows := t_rows tbl @ [?r], t_next := t_next tbl + 1\<rparr>) db"
  have tok: "table_ok tbl" using ok tbl by (rule db_ok_lookup)
  have cr: "create t d db = Inr (Some ?r, ?db')" using create_eq [OF assms] .
  then have "\<exists>rs. execute (sb_insert t (VObj (format_data d))) db = Inr (rs, ?db')"
    by (auto simp: create_def split: sum.splits)
  then have ok': "db_ok ?db'" using ok by (blast intro: execute_preserves_db_ok)
  have rid: "dict_get ?r ''id'' = VInt (t_next tbl)"
    using tok keys by (simp add: dict_get_full_row table_ok_def del: set_map)
  have "get_by_id t (t_next tbl) ?db' = Inr (Some ?r, ?db')"
    using get_by_id_after_insert [OF tok fresh rid] .
  with cr ok' rid full_row_fields [OF keys(2)] show ?thesis by blast
qed

lemma delete_eq:
  assumes "map_of db t = Some tbl" "''id'' \<in> set (t_cols tbl)"
  shows "delete t i db =
    Inr (filter (\<lambda>r. dict_get r ''id'' = VInt i) (t_rows tbl) \<noteq> [],
         AList.update t (tbl\<lparr>t_rows := filter (\<lambda>r. dict_get r ''id'' \<noteq> VInt i) (t_rows tbl)\<rparr>) db)"
  using assms by (simp add: delete_def execute_def exec_delete_def sb_delete_def q_eq_def add_filter_def
      filter_error_id row_matches_id any_rows_def)

text \<open>
  C3. \<open>delete(table, id)\<close> on an id no row has returns \<open>False\<close> and raises nothing;
  the store is unchanged.
\<close>

theorem delete_missing_false:
  assumes "map_of db t = Some tbl" "''id'' \<in> set (t_cols tbl)"
    and "VInt i \<notin> set (map (\<lambda>r. dict_get r ''id'') (t_rows tbl))"
  shows "delete t i db = Inr (False, db)"
proof -
  have "filter (\<lambda>r. dict_get r ''id'' = VInt i) (t_rows tbl) = []"
    using assms(3) by (force simp: filter_empty_conv)
  moreover have "filter (\<lambda>r. dict_get r ''id'' \<noteq> VInt i) (t_rows tbl) = t_rows tbl"
    using assms(3) by (force simp: filter_id_conv)
  ultimately show ?thesis using assms(1,2) by (simp add: delete_eq)
qed

lemma sum_column_eq:
  assumes "map_of db t = Some tbl" "parse_select c = SelCol c" "c \<in> set (t_cols tbl)"
    and "set (map fst fs) \<subseteq> set (t_cols tbl)"
  shows "sum_column t c (Some fs) db =
    (let ms = matching_rows (t_rows tbl) fs in
     if ms \<noteq> [] then
       (case py_sum_from (VInt 0) (map (\<lambda>r. sum_term c [(c, dict_get r c)]) ms) of
          Inl e \<Rightarrow> Inl e | Inr s \<Rightarrow> Inr (s, db))
     else Inr (VFloat 0, db))"
proof (cases "fs = []")
  case True
  have "filter_error t tbl [] = None" by (simp add: filter_error_def)
  with True assms show ?thesis
    by (simp add: sum_column_def sb_select_def execute_select_col matching_rows_def row_matches_def comp_def)
next
  case False
  with assms show ?thesis
    by (simp add: sum_column_def sb_select_def apply_filters_eq execute_select_col filter_error_eqs
        row_matches_eqs matching_rows_def comp_def)
qed

text \<open>
  C4. \<open>sum_column(table, column, filters)\<close> returns the float \<open>0.0\<close> when no row
  matches the filters, and leaves the store unchanged.
\<close>

theorem sum_column_no_match:
  assumes "map_of db t = Some tbl" "parse_select c = SelCol c" "c \<in> set (t_cols tbl)"
    and "set (map fst fs) \<subseteq> set (t_cols tbl)" and "matching_rows (t_rows tbl) fs = []"
  shows "sum_column t c (Some fs) db = Inr (VFloat 0, db)"
  using sum_column_eq [OF assms(1-4)] assms(5) by simp

lemma result_db:
  "(case execute q db of Inl e \<Rightarrow> Inl e | Inr (rs, db') \<Rightarrow> Inr (f rs, db')) = Inr (r, db'') \<Longrightarrow>
   \<exists>rs. execute q db = Inr (rs, db'')"
  by (auto split: sum.splits)

lemma create_db_ok: "db_ok db \<Longrightarrow> create t d db = Inr (r, db') \<Longrightarrow> db_ok db'"
  unfolding create_def by (blast dest: result_db intro: execute_preserves_db_ok)

lemma json_safe_format_date: "json_safe v \<Longrightarrow> format_date v = v"
  by (cases v) (simp_all add: format_date_def)

lemma get_by_id_missing:
  assumes "map_of db t = Some tbl" "''id'' \<in> set (t_cols tbl)"
    and "VInt i \<notin> set (map (\<lambda>r. dict_get r ''id'') (t_rows tbl))"
  shows "get_by_id t i db = Inr (None, db)"
proof -
  have "find_by_id (t_rows tbl) (VInt i) = None"
    using assms(3) by (force simp: find_by_id_def find_None_iff)
  with get_by_id_eq [OF assms(1,2)] show ?thesis by simp
qed


lemma replace_char_absent: "c \<notin> set s \<Longrightarrow> replace_char c r s = s"
  by (induction s) (auto simp: replace_char_def)

text \<open>
  C15. The date convention at the repository's boundary round-trips: \<open>parse_date\<close>
  of \<open>format_date\<close> of a valid date is that date, and of a valid datetime is the
  datetime's date (the time part is dropped by \<open>.date()\<close>).
\<close>

theorem parse_date_format_date:
  "(valid_date d \<longrightarrow> parse_date (format_date (VDate d)) = Inr (VDate d)) \<and>
   (valid_datetime t \<longrightarrow> parse_date (format_date (VDateTime t)) = Inr (VDate (dt_date t)))"
  by (simp add: format_date_def parse_date_def replace_char_absent Z_not_in_date_isoformat
      Z_not_in_datetime_isoformat fromisoformat_date_isoformat fromisoformat_datetime_isoformat)

lemma search_eq:
  assumes "map_of db t = Some tbl" "c \<in> set (t_cols tbl)"
    and "list_all (\<lambda>r. text_cell (dict_get r c)) (t_rows tbl)"
    and "backslash \<notin> set (pgrst_pattern (CHR ''%'' # term @ ''%''))"
  shows "search t c term db =
    Inr (filter (\<lambda>r. case dict_get r c of VStr s \<Rightarrow> ilike_match (pgrst_pattern (CHR ''%'' # term @ ''%'')) s
                    | _ \<Rightarrow> False) (t_rows tbl), db)"
proof -
  have "filter_error t tbl [FILike c (CHR ''%'' # term @ ''%'')] = None"
    using assms(2-4) by (simp add: filter_error_def like_pattern_ok_plain list_all_iff)
  moreover have "row_matches [FILike c (CHR ''%'' # term @ ''%'')] =
      (\<lambda>r. case dict_get r c of VStr s \<Rightarrow> ilike_match (pgrst_pattern (CHR ''%'' # term @ ''%'')) s | _ \<Rightarrow> False)"
    by (simp add: row_matches_def fun_eq_iff)
  ultimately show ?thesis using assms(1)
    by (simp add: search_def q_ilike_def add_filter_def sb_select_def execute_select_star)
qed

text \<open>
  C16. \<open>search(table, column, term)\<close> is a case-insensitive substring match when the
  term has no character with a meaning in a pattern (\<open>%\<close>, \<open>_\<close>, \<open>*\<close>,
  backslash): on a text column it returns exactly the rows whose value contains the term,
  ignoring case, in storage order, and leaves the store unchanged.
\<close>

theorem search_contains:
  assumes "map_of db t = Some tbl" "c \<in> set (t_cols tbl)"
    and "list_all (\<lambda>r. text_cell (dict_get r c)) (t_rows tbl)"
    and "\<forall>ch \<in> set term. \<not> like_special ch"
  shows "search t c term db =
    Inr (filter (\<lambda>r. case dict_get r c of VStr s \<Rightarrow> sublist (lower term) (lower s) | _ \<Rightarrow> False)
           (t_rows tbl), db)"
proof -
  have p: "pgrst_pattern (CHR ''%'' # term @ ''%'') = ''%'' @ term @ ''%''"
    using pgrst_pattern_plain [OF assms(4)] by (simp add: pgrst_pattern_def)
  have "backslash \<notin> set (pgrst_pattern (CHR ''%'' # term @ ''%''))"
    using assms(4) p by (auto simp: like_special_def)
  note eq = search_eq [OF assms(1-3) this]
  have "(\<lambda>r. case dict_get r c of VStr s \<Rightarrow> ilike_match (pgrst_pattern (CHR ''%'' # term @ ''%'')) s | _ \<Rightarrow> False) =
        (\<lambda>r. case dict_get r c of VStr s \<Rightarrow> sublist (lower term) (lower s) | _ \<Rightarrow> False)"
    using ilike_contains [OF assms(4)] by (auto simp: fun_eq_iff split: pyval.split)
  with eq show ?thesis by simp
qed


text \<open>
  C17. The term of \<open>search\<close> is not escaped: an \<open>_\<close> in it matches any one character.
  For a term \<open>p_q\<close> whose parts have no other pattern character, on a text column,
  \<open>search\<close> returns exactly the rows whose value contains \<open>p\<close>, some character and
  \<open>q\<close>, ignoring case, which includes values that do not contain the term itself.
\<close>

theorem search_underscore_any_char:
  assumes "map_of db t = Some tbl" "c \<in> set (t_cols tbl)"
    and "list_all (\<lambda>r. text_cell (dict_get r c)) (t_rows tbl)"
    and "\<forall>ch \<in> set p. \<not> like_special ch" "\<forall>ch \<in> set q. \<not> like_special ch"
  shows "search t c (p @ CHR ''_'' # q) db =
    Inr (filter (\<lambda>r. case dict_get r c of VStr s \<Rightarrow> \<exists>x. sublist (lower p @ x # lower q) (lower s)
                    | _ \<Rightarrow> False) (t_rows tbl), db)"
proof -
  have pat: "pgrst_pattern (CHR ''%'' # (p @ CHR ''_'' # q) @ ''%'') = CHR ''%'' # p @ CHR ''_'' # q @ ''%''"
    using pgrst_pattern_plain [OF assms(4)] pgrst_pattern_plain [OF assms(5)]
    by (simp add: pgrst_pattern_def)
  then have "backslash \<notin> set (pgrst_pattern (CHR ''%'' # (p @ CHR ''_'' # q) @ ''%''))"
    using assms(4,5) by (auto simp: like_special_def)
  note eq = search_eq [OF assms(1-3) this]
  have "(\<lambda>r. case dict_get r c of VStr s \<Rightarrow> ilike_match (pgrst_pattern (CHR ''%'' # (p @ CHR ''_'' # q) @ ''%'')) s
                | _ \<Rightarrow> False) =
        (\<lambda>r. case dict_get r c of VStr s \<Rightarrow> \<exists>x. sublist (lower p @ x # lower q) (lower s) | _ \<Rightarrow> False)"
    using ilike_one_wildcard [OF assms(4,5)] by (auto simp: fun_eq_iff split: pyval.split)
  with eq show ?thesis by simp
qed

lemma iso_date_cell_range:
  assumes "iso_date_cell v" "valid_date s" "valid_date e"
  shows "text_cell v \<and>
    (filt_holds (FGte c (date_isoformat s)) v \<and> filt_holds (FLte c' (date_isoformat e)) v \<longleftrightarrow>
     in_date_range s e v)"
  using assms
  by (auto simp: iso_date_cell_def in_date_range_def str_le_date_isoformat
      split: pyval.splits sum.splits)

lemma iso_date_cell_isoformat: "valid_date d \<Longrightarrow> iso_date_cell (VStr (date_isoformat d))"
  by (simp add: iso_date_cell_def fromisoformat_date_isoformat)

lemma in_date_range_isoformat:
  "valid_date d \<Longrightarrow> in_date_range s e (VStr (date_isoformat d)) \<longleftrightarrow> date_le s d \<and> date_le d e"
  by (simp add: in_date_range_def fromisoformat_date_isoformat)

lemma range_filters_ok:
  assumes "c \<in> set (t_cols tbl)" "list_all (\<lambda>r. iso_date_cell (dict_get r c)) (t_rows tbl)"
    and "valid_date s" "valid_date e"
  shows "filter_error t tbl [FGte c (date_isoformat s), FLte c (date_isoformat e)] = None"
  using assms iso_date_cell_range [OF _ assms(3,4)]
  by (simp add: filter_error_def list_all_iff)

text \<open>
  C18. \<open>get_by_date_range(table, column, start, end)\<close> is the inclusive range query it
  promises: on a column holding ISO dates (or \<open>NULL\<close>) and valid bounds, it returns
  exactly the rows whose date \<open>d\<close> has \<open>start <= d <= end\<close>, in storage order, and
  leaves the store unchanged. The store compares the ISO strings byte-wise, which on valid
  dates is the order of the dates.
\<close>

theorem get_by_date_range_inclusive:
  assumes "map_of db t = Some tbl" "c \<in> set (t_cols tbl)"
    and "list_all (\<lambda>r. iso_date_cell (dict_get r c)) (t_rows tbl)"
    and "valid_date s" "valid_date e"
  shows "get_by_date_range t c s e db = Inr (filter (\<lambda>r. in_date_range s e (dict_get r c)) (t_rows tbl), db)"
proof -
  have "filter (row_matches [FGte c (date_isoformat s), FLte c (date_isoformat e)]) (t_rows tbl) =
        filter (\<lambda>r. in_date_range s e (dict_get r c)) (t_rows tbl)"
    using assms(3) iso_date_cell_range [OF _ assms(4,5)]
    by (intro filter_cong) (auto simp: row_matches_def list_all_iff)
  then show ?thesis
    using assms range_filters_ok [OF assms(2-5)]
    by (simp add: get_by_date_range_def q_gte_def q_lte_def add_filter_def sb_select_def execute_select_star)
qed


lemma dict_get_upd_format:
  "k \<in> set (map fst r) \<Longrightarrow>
   dict_get (upd_row (format_data d) r) k = (if k \<in> set (map fst d) then format_date (dict_get d k) else dict_get r k)"
proof -
  assume k: "k \<in> set (map fst r)"
  show ?thesis
  proof (cases "k \<in> set (map fst d)")
    case True
    then have "k \<in> fst ` set (format_data d)"
      by (metis format_data_keys set_map)
    then have "map_of (format_data d) k \<noteq> None"
      by (simp add: map_of_eq_None_iff)
    then obtain v where v: "map_of (format_data d) k = Some v" by blast
    then have "dict_get (format_data d) k = v" by (simp add: dict_get_def)
    then show ?thesis
      using dict_get_upd_row [OF k] v True dict_get_format_data [of d k] by simp
  next
    case False
    then show ?thesis by (simp add: dict_get_upd_row_other)
  qed
qed

lemma update_eq:
  assumes ok: "db_ok db" and tbl: "map_of db t = Some tbl"
    and keys: "set (map fst d) \<subseteq> set (t_cols tbl)" "''id'' \<notin> set (map fst d)"
    and safe: "list_all (\<lambda>kv. json_safe (format_date (snd kv))) d"
  shows "update t i d db =
    Inr (map_option (upd_row (format_data d)) (find_by_id (t_rows tbl) (VInt i)),
         AList.update t (tbl\<lparr>t_rows := map (\<lambda>r. if dict_get r ''id'' = VInt i then upd_row (format_data d) r else r)
                                        (t_rows tbl)\<rparr>) db)"
proof -
  have tok: "table_ok tbl" using ok tbl by (rule db_ok_lookup)
  have "first_or_none (map (upd_row (format_data d)) (filter (\<lambda>r. dict_get r ''id'' = VInt i) (t_rows tbl))) =
        map_option (upd_row (format_data d)) (find_by_id (t_rows tbl) (VInt i))"
    by (simp add: first_or_none_def first_or_none_filter [symmetric] find_by_id_def hd_map)
  then show ?thesis
    using exec_update_id [OF tok, where d = "format_data d" and i = i and t = t and db = db] keys safe tbl
    by (simp add: update_def execute_def sb_update_def q_eq_def add_filter_def format_data_safe del: set_map)
qed

lemma parse_iso_date_pad:
  "y < 10000 \<Longrightarrow> m < 100 \<Longrightarrow> d < 100 \<Longrightarrow>
   parse_iso_date (pad_dec 4 y @ ''-'' @ pad_dec 2 m @ ''-'' @ pad_dec 2 d) = Some ((y, m, d), [])"
  using take_digits_pad [of y 4] take_digits_pad [of m 2] take_digits_pad_Nil [of d 2]
  by (simp add: parse_iso_date_def)

lemma Z_not_in_pad_dec: "CHR ''Z'' \<notin> set (pad_dec w n)"
  using pad_dec_digits digit_not_Z by blast

text \<open>
  C19. \<open>parse_date\<close> on a string of the form \<open>YYYY-MM-DD\<close> returns the date it
  names when the fields make a date, and raises the \<open>ValueError\<close> of the
  \<open>date\<close> constructor with its message otherwise (year, month, then day range).
\<close>

theorem parse_date_iso_date:
  assumes "y < 10000" "m < 100" "d < 100"
  shows "parse_date (VStr (pad_dec 4 y @ ''-'' @ pad_dec 2 m @ ''-'' @ pad_dec 2 d)) =
    (case check_date y m d of None \<Rightarrow> Inr (VDate \<lparr>year = y, month = m, day = d\<rparr>)
     | Some e \<Rightarrow> Inl (ValueError e))"
  using parse_iso_date_pad [OF assms]
  by (simp add: parse_date_def fromisoformat_date_def replace_char_absent Z_not_in_pad_dec
      split: option.split)

text \<open>
  C20. \<open>update(table, id, data)\<close> on an existing id: on a well-formed store, with data
  naming columns of the table other than \<open>id\<close> and JSON values once dates are
  formatted, it returns the row with the data's values (dates as ISO strings) and the
  row's other values, the store stays well-formed, and \<open>get_by_id\<close> then returns
  that row.
\<close>

theorem update_get_by_id:
  assumes ok: "db_ok db" and tbl: "map_of db t = Some tbl"
    and row: "find_by_id (t_rows tbl) (VInt i) = Some r"
    and keys: "set (map fst d) \<subseteq> set (t_cols tbl)" "''id'' \<notin> set (map fst d)"
    and safe: "list_all (\<lambda>kv. json_safe (format_date (snd kv))) d"
  shows "\<exists>db'. update t i d db = Inr (Some (upd_row (format_data d) r), db') \<and> db_ok db' \<and>
     get_by_id t i db' = Inr (Some (upd_row (format_data d) r), db') \<and>
     (\<forall>k \<in> set (t_cols tbl). dict_get (upd_row (format_data d) r) k =
        (if k \<in> set (map fst d) then format_date (dict_get d k) else dict_get r k))"
proof -
  have tok: "table_ok tbl" using ok tbl by (rule db_ok_lookup)
  let ?tbl' = "tbl\<lparr>t_rows := map (\<lambda>r. if dict_get r ''id'' = VInt i then upd_row (format_data d) r else r)
                                (t_rows tbl)\<rparr>"
  let ?db' = "AList.update t ?tbl' db"
  have up: "update t i d db = Inr (Some (upd_row (format_data d) r), ?db')"
    using update_eq [OF ok tbl keys safe] row by simp
  then have ok': "db_ok ?db'"
    using ok unfolding update_def by (blast dest: result_db intro: execute_preserves_db_ok)
  have "map_of ?db' t = Some ?tbl'" by (simp add: update_Some_unfold)
  moreover have "''id'' \<in> set (t_cols ?tbl')" using tok by (simp add: table_ok_def)
  ultimately have get: "get_by_id t i ?db' = Inr (Some (upd_row (format_data d) r), ?db')"
    using row keys(2) by (simp add: get_by_id_eq find_by_id_upd_rows del: set_map)
  have "r \<in> set (t_rows tbl)" using row by (auto simp: find_by_id_def find_Some_iff)
  then have "map fst r = t_cols tbl" using tok by (auto simp: table_ok_def list_all_iff)
  then have "\<forall>k \<in> set (t_cols tbl). dict_get (upd_row (format_data d) r) k =
        (if k \<in> set (map fst d) then format_date (dict_get d k) else dict_get r k)"
    using dict_get_upd_format [of _ r d] by simp
  with up ok' get show ?thesis by blast
qed

text \<open>
  C21. \<open>update(table, id, data)\<close> on an id no row has returns \<open>None\<close>, raises
  nothing and leaves the store unchanged.
\<close>

theorem update_missing_none:
  assumes "db_ok db" "map_of db t = Some tbl"
    and "VInt i \<notin> set (map (\<lambda>r. dict_get r ''id'') (t_rows tbl))"
    and "set (map fst d) \<subseteq> set (t_cols tbl)" "''id'' \<notin> set (map fst d)"
    and "list_all (\<lambda>kv. json_safe (format_date (snd kv))) d"
  shows "update t i d db = Inr (None, db)"
proof -
  have none: "find_by_id (t_rows tbl) (VInt i) = None"
    using assms(3) by (force simp: find_by_id_def find_None_iff)
  have "map (\<lambda>r. if dict_get r ''id'' = VInt i then upd_row (format_data d) r else r) (t_rows tbl) = t_rows tbl"
    using assms(3) by (intro map_idI) force
  then show ?thesis
    using update_eq [OF assms(1,2,4,5,6)] none assms(2) by simp
qed

lemma remove_related_records_eq:
  assumes "map_of db jt = Some jtbl" "set (map fst fs) \<subseteq> set (t_cols jtbl)"
  shows "remove_related_records jt fs db =
    Inr (matching_rows (t_rows jtbl) fs \<noteq> [],
         AList.update jt (jtbl\<lparr>t_rows := filter (\<lambda>r. r \<notin> set (matching_rows (t_rows jtbl) fs)) (t_rows jtbl)\<rparr>) db)"
proof -
  have "filter (\<lambda>r. \<not> row_matches (map (\<lambda>kv. FEq (fst kv) (snd kv)) fs) r) (t_rows jtbl) =
        filter (\<lambda>r. r \<notin> set (matching_rows (t_rows jtbl) fs)) (t_rows jtbl)"
    by (intro filter_cong) (simp_all add: row_matches_eqs matching_rows_def)
  then show ?thesis using assms
    by (simp add: remove_related_records_def apply_filters_eq sb_delete_def execute_def exec_delete_def
        filter_error_eqs any_rows_def row_matches_eqs matching_rows_def del: set_map)
qed

text \<open>
  C22. \<open>remove_related_records(junction, filters)\<close> deletes exactly the junction rows
  that match every filter and keeps the others in order; it returns whether it deleted any.
\<close>

theorem remove_related_records_conjunctive:
  assumes "map_of db jt = Some jtbl" "set (map fst fs) \<subseteq> set (t_cols jtbl)"
  shows "\<exists>jtbl'. remove_related_records jt fs db =
            Inr (matching_rows (t_rows jtbl) fs \<noteq> [], AList.update jt jtbl' db) \<and>
          t_rows jtbl' = filter (\<lambda>r. r \<notin> set (matching_rows (t_rows jtbl) fs)) (t_rows jtbl) \<and>
          t_cols jtbl' = t_cols jtbl \<and> t_next jtbl' = t_next jtbl"
  using remove_related_records_eq [OF assms] by auto


text \<open>
  C23. \<open>add_related_records(junction, rows)\<close> on a well-formed store inserts all the
  rows in one statement when they have the same keys, name columns of the junction table
  other than \<open>id\<close> and hold JSON values: the rows get ids from the identity sequence in
  order, the table gains exactly these rows at its end, and it returns \<open>True\<close>.
\<close>

theorem add_related_records_inserts:
  assumes ok: "db_ok db" and tbl: "map_of db jt = Some jtbl" and below: "ids_below jtbl"
    and ne: "data \<noteq> []" and same: "list_all (\<lambda>d. set (map fst d) = set (map fst (hd data))) data"
    and keys: "\<forall>d \<in> set data. set (map fst d) \<subseteq> set (t_cols jtbl)" and noid: "no_id data"
    and safe: "list_all dict_safe data"
  shows "add_related_records jt data db =
    Inr (True, AList.update jt (jtbl\<lparr>t_rows := t_rows jtbl @ fst (new_rows (t_cols jtbl) (t_next jtbl) data),
                                     t_next := t_next jtbl + int (length data)\<rparr>) db)"
proof -
  have tok: "table_ok jtbl" using ok tbl by (rule db_ok_lookup)
  have pl: "payload_rows (VList (map VObj data)) = Inr data"
    using same by (simp add: payload_rows_def list_all_iff comp_def)
  have js: "json_safe (VList (map VObj data))"
    using safe by (simp add: list_all_iff)
  obtain d ds where "data = d # ds" using ne by (cases data) auto
  then have "fst (new_rows (t_cols jtbl) (t_next jtbl) data) \<noteq> []" by (simp del: new_rows.simps(2))
  then show ?thesis
    using exec_insert_rows [OF tok below pl keys noid] tbl js
    by (simp add: add_related_records_def execute_def sb_insert_def any_rows_def)
qed

text \<open>
  C24. \<open>add_related_records(junction, rows)\<close> does not format dates as \<open>create\<close> and
  \<open>update\<close> do: rows holding a \<open>date\<close> or \<open>datetime\<close> make the client's JSON encoding
  raise a \<open>TypeError\<close>, and nothing is inserted.
\<close>

theorem add_related_records_date_error:
  assumes "\<not> list_all dict_safe data"
  shows "add_related_records jt data db = Inl (unsafe_error (VList (map VObj data)))"
proof -
  have "\<not> json_safe (VList (map VObj data))"
    using assms by (simp add: list_all_iff)
  then show ?thesis
    by (simp add: add_related_records_def execute_def sb_insert_def)
qed

text \<open>
  C25. \<open>get_related_records(table, junction, fk, id)\<close> returns, for each junction row whose
  column \<open>fk\<close> is \<open>id\<close>, in storage order, one object holding under the name \<open>table\<close>
  the row of \<open>table\<close> that the junction's foreign key to \<open>table\<close> references
  (\<open>NULL\<close> when none), and leaves the store unchanged.
\<close>

theorem get_related_records_embed:
  assumes "map_of db jt = Some jtbl" "fk \<in> set (t_cols jtbl)"
    and "filter (\<lambda>x. snd x = t) (t_fks jtbl) = [(c, t)]" "map_of db t = Some tgt"
  shows "get_related_records t jt fk i db =
    Inr (map (\<lambda>r. [(t, case find_by_id (t_rows tgt) (dict_get r c) of Some r' \<Rightarrow> VObj r' | None \<Rightarrow> VNull)])
           (filter (\<lambda>r. dict_get r fk = VInt i) (t_rows jtbl)), db)"
proof -
  have "filter_error jt jtbl [FEq fk (VInt i)] = None"
    using filter_error_eqs [of "[(fk, VInt i)]" jtbl jt] assms(2) by simp
  moreover have "row_matches [FEq fk (VInt i)] = (\<lambda>r. dict_get r fk = VInt i)"
    by (auto simp: row_matches_def fun_eq_iff)
  ultimately show ?thesis
    using execute_select_embed [OF assms(1) _ assms(3,4)]
    by (simp add: get_related_records_def q_eq_def add_filter_def sb_select_def embed_def)
qed

lemma sum_term_int: "int_cell v = Some n \<Longrightarrow> sum_term c [(c, v)] = VInt n"
  by (cases v) (auto simp: sum_term_def)

lemma py_sum_from_ints: "py_sum_from (VInt a) (map VInt ns) = Inr (VInt (a + sum_list ns))"
  by (induction ns arbitrary: a) (simp_all add: py_add_def add.assoc)

text \<open>
  C26. \<open>sum_column(table, column, filters)\<close> over matching rows whose cells are integers or
  \<open>NULL\<close> returns their sum, \<open>NULL\<close> counted as 0, as a Python \<open>int\<close> (not the
  \<open>float\<close> the signature declares), and leaves the store unchanged.
\<close>

theorem sum_column_ints:
  assumes "map_of db t = Some tbl" "parse_select c = SelCol c" "c \<in> set (t_cols tbl)"
    and "set (map fst fs) \<subseteq> set (t_cols tbl)" "matching_rows (t_rows tbl) fs \<noteq> []"
    and "list_all (\<lambda>r. int_cell (dict_get r c) \<noteq> None) (matching_rows (t_rows tbl) fs)"
  shows "sum_column t c (Some fs) db =
    Inr (VInt (sum_list (map (\<lambda>r. the (int_cell (dict_get r c))) (matching_rows (t_rows tbl) fs))), db)"
proof -
  let ?ms = "matching_rows (t_rows tbl) fs"
  have m: "map (\<lambda>r. sum_term c [(c, dict_get r c)]) ?ms = map VInt (map (\<lambda>r. the (int_cell (dict_get r c))) ?ms)"
    using assms(6) by (auto simp: list_all_iff sum_term_int)
  have s: "sum_column t c (Some fs) db =
      (case py_sum_from (VInt 0) (map (\<lambda>r. sum_term c [(c, dict_get r c)]) ?ms) of
         Inl e \<Rightarrow> Inl e | Inr s \<Rightarrow> Inr (s, db))"
    using sum_column_eq [OF assms(1-4)] assms(5) by simp
  show ?thesis unfolding s m py_sum_from_ints by simp
qed

text \<open>Witness of C1: filtering the sample workers by name.\<close>

theorem get_all_conjunctive_witness:
  "map_of sample_db ''workers'' = Some sample_workers \<and>
   set (map fst [(''name'', VStr ''Ana'')]) \<subseteq> set (t_cols sample_workers) \<and>
   get_all ''workers'' (Some [(''name'', VStr ''Ana'')]) sample_db =
     Inr (matching_rows (t_rows sample_workers) [(''name'', VStr ''Ana'')], sample_db)"
proof -
  have h1: "map_of sample_db ''workers'' = Some sample_workers" by (simp add: sample_db_def)
  have h2: "set (map fst [(''name'', VStr ''Ana'')]) \<subseteq> set (t_cols sample_workers)"
    by (simp add: sample_workers_def)
  show ?thesis using h1 h2 get_all_conjunctive [OF h1 h2] by blast
qed

text \<open>Witness of C2: creating worker Bob in the sample store.\<close>

theorem create_get_by_id_roundtrip_witness:
  "db_ok sample_db \<and> map_of sample_db ''workers'' = Some sample_workers \<and>
   (\<exists>r db'. create ''workers'' [(''name'', VStr ''Bob''), (''number'', VStr ''777'')] sample_db =
        Inr (Some r, db') \<and> db_ok db' \<and> dict_get r ''id'' = VInt 2 \<and>
      (\<forall>k \<in> set (t_cols sample_workers). k \<noteq> ''id'' \<longrightarrow>
         dict_get r k = format_date (dict_get [(''name'', VStr ''Bob''), (''number'', VStr ''777'')] k)) \<and>
      get_by_id ''workers'' 2 db' = Inr (Some r, db'))"
proof -
  let ?d = "[(''name'', VStr ''Bob''), (''number'', VStr ''777'')]"
  have h1: "db_ok sample_db"
    by (simp add: db_ok_def table_ok_def sample_defs exec_defs)
  have h2: "map_of sample_db ''workers'' = Some sample_workers" by (simp add: sample_db_def)
  have h3: "set (map fst ?d) \<subseteq> set (t_cols sample_workers)" by (simp add: sample_workers_def)
  have h4: "''id'' \<notin> set (map fst ?d)" by simp
  have h5: "list_all (\<lambda>kv. json_safe (format_date (snd kv))) ?d" by (simp add: format_date_def)
  have h6: "VInt (t_next sample_workers) \<notin> set (map (\<lambda>r. dict_get r ''id'') (t_rows sample_workers))"
    by (simp add: sample_workers_def dict_get_def)
  have "t_next sample_workers = 2" by (simp add: sample_workers_def)
  with h1 h2 create_get_by_id_roundtrip [OF h1 h2 h3 h4 h5 h6] show ?thesis by simp
qed

text \<open>Witness of C3: deleting worker 9999 from the sample store.\<close>

theorem delete_missing_false_witness:
  "map_of sample_db ''workers'' = Some sample_workers \<and> ''id'' \<in> set (t_cols sample_workers) \<and>
   VInt 9999 \<notin> set (map (\<lambda>r. dict_get r ''id'') (t_rows sample_workers)) \<and>
   delete ''workers'' 9999 sample_db = Inr (False, sample_db)"
proof -
  have h1: "map_of sample_db ''workers'' = Some sample_workers" by (simp add: sample_db_def)
  have h2: "''id'' \<in> set (t_cols sample_workers)" by (simp add: sample_workers_def)
  have h3: "VInt 9999 \<notin> set (map (\<lambda>r. dict_get r ''id'') (t_rows sample_workers))"
    by (simp add: sample_workers_def dict_get_def)
  show ?thesis using h1 h2 h3 delete_missing_false [OF h1 h2 h3] by blast
qed

text \<open>Witness of C4: summing \<open>Rate\<close> over the workers named Zed (none).\<close>

theorem sum_column_no_match_witness:
  "map_of sample_db ''workers'' = Some sample_workers \<and> parse_select ''Rate'' = SelCol ''Rate'' \<and>
   ''Rate'' \<in> set (t_cols sample_workers) \<and>
   set (map fst [(''name'', VStr ''Zed'')]) \<subseteq> set (t_cols sample_workers) \<and>
   matching_rows (t_rows sample_workers) [(''name'', VStr ''Zed'')] = [] \<and>
   sum_column ''workers'' ''Rate'' (Some [(''name'', VStr ''Zed'')]) sample_db = Inr (VFloat 0, sample_db)"
proof -
  have h1: "map_of sample_db ''workers'' = Some sample_workers" by (simp add: sample_db_def)
  have h2: "parse_select ''Rate'' = SelCol ''Rate''" by (simp add: parse_select_def suffix_to_prefix)
  have h3: "''Rate'' \<in> set (t_cols sample_workers)" by (simp add: sample_workers_def)
  have h4: "set (map fst [(''name'', VStr ''Zed'')]) \<subseteq> set (t_cols sample_workers)"
    by (simp add: sample_workers_def)
  have h5: "matching_rows (t_rows sample_workers) [(''name'', VStr ''Zed'')] = []"
    by (simp add: sample_workers_def matching_rows_def dict_get_def)
  show ?thesis using h1 h2 h3 h4 h5 sum_column_no_match [OF h1 h2 h3 h4 h5] by blast
qed


text \<open>Witness of C15: the date 2024-02-29 and the datetime 2024-03-07T01:02:03.000040-05:30.\<close>

theorem parse_date_format_date_witness:
  "valid_date \<lparr>year = 2024, month = 2, day = 29\<rparr> \<and>
   parse_date (format_date (VDate \<lparr>year = 2024, month = 2, day = 29\<rparr>)) =
     Inr (VDate \<lparr>year = 2024, month = 2, day = 29\<rparr>) \<and>
   valid_datetime \<lparr>dt_date = \<lparr>year = 2024, month = 3, day = 7\<rparr>, hour = 1, minute = 2, second = 3,
                   microsecond = 40, utc_offset = Some (-330)\<rparr> \<and>
   parse_date (format_date (VDateTime \<lparr>dt_date = \<lparr>year = 2024, month = 3, day = 7\<rparr>, hour = 1,
       minute = 2, second = 3, microsecond = 40, utc_offset = Some (-330)\<rparr>)) =
     Inr (VDate \<lparr>year = 2024, month = 3, day = 7\<rparr>)"
proof -
  have d: "valid_date \<lparr>year = 2024, month = 2, day = 29\<rparr>"
    by (simp add: valid_date_def check_date_def days_in_month_def is_leap_def)
  have t: "valid_datetime \<lparr>dt_date = \<lparr>year = 2024, month = 3, day = 7\<rparr>, hour = 1, minute = 2,
      second = 3, microsecond = 40, utc_offset = Some (-330)\<rparr>"
    by (simp add: valid_datetime_def valid_date_def check_date_def check_time_def days_in_month_def)
  show ?thesis using d t parse_date_format_date by simp
qed

text \<open>Witness of C16: the specification's example, \<open>an\<close> matches Ana, Anand and Banana, not Bob.\<close>

theorem search_contains_witness:
  "search ''people'' ''name'' ''an'' sample_db =
     Inr ([[(''id'', VInt 1), (''name'', VStr ''Ana'')], [(''id'', VInt 2), (''name'', VStr ''Anand'')],
           [(''id'', VInt 3), (''name'', VStr ''Banana'')]], sample_db)"
proof -
  have h1: "map_of sample_db ''people'' = Some sample_people" by (simp add: sample_db_def)
  have h2: "''name'' \<in> set (t_cols sample_people)" by (simp add: sample_people_def)
  have h3: "list_all (\<lambda>r. text_cell (dict_get r ''name'')) (t_rows sample_people)"
    by (simp add: sample_people_def)
  have h4: "\<forall>ch \<in> set ''an''. \<not> like_special ch" by (simp add: like_special_def)
  show ?thesis using search_contains [OF h1 h2 h3 h4]
    by (simp add: sample_people_def lower_def lower_char_def sublist_code eq_char_of_iff)
qed

text \<open>Witness of C18: the expenses of 2024-03-01 to 2024-03-07 in the sample store.\<close>

theorem get_by_date_range_inclusive_witness:
  "get_by_date_range ''Daily_Expenses'' ''date'' \<lparr>year = 2024, month = 3, day = 1\<rparr>
     \<lparr>year = 2024, month = 3, day = 7\<rparr> sample_db = Inr (take 2 (t_rows sample_daily), sample_db)"
proof -
  define d1 d2 d3 where "d1 = \<lparr>year = 2024, month = 3, day = 1\<rparr>" and "d2 = \<lparr>year = 2024, month = 3, day = 7\<rparr>"
    and "d3 = \<lparr>year = 2024, month = 3, day = 9::nat\<rparr>"
  have v: "valid_date d1" "valid_date d2" "valid_date d3"
    by (simp_all add: d1_def d2_def d3_def valid_date_def check_date_def days_in_month_def)
  have rows: "t_rows sample_daily =
      [[(''id'', VInt 1), (''date'', VStr (date_isoformat d1)), (''amount'', VInt 10)],
       [(''id'', VInt 2), (''date'', VStr (date_isoformat d2)), (''amount'', VInt 20)],
       [(''id'', VInt 3), (''date'', VStr (date_isoformat d3)), (''amount'', VInt 30)],
       [(''id'', VInt 4), (''date'', VNull), (''amount'', VInt 40)]]"
    by (simp add: sample_daily_def d1_def d2_def d3_def isoformat_eval)
  have h1: "map_of sample_db ''Daily_Expenses'' = Some sample_daily" by (simp add: sample_db_def)
  have h2: "''date'' \<in> set (t_cols sample_daily)" by (simp add: sample_daily_def)
  have h3: "list_all (\<lambda>r. iso_date_cell (dict_get r ''date'')) (t_rows sample_daily)"
    using v by (simp add: rows iso_date_cell_isoformat) (simp add: iso_date_cell_def)
  have "get_by_date_range ''Daily_Expenses'' ''date'' d1 d2 sample_db = Inr (take 2 (t_rows sample_daily), sample_db)"
    using get_by_date_range_inclusive [OF h1 h2 h3 v(1) v(2)]
    by (simp add: rows v in_date_range_isoformat) (simp add: in_date_range_def d1_def d2_def d3_def date_le_def)
  then show ?thesis by (simp add: d1_def d2_def)
qed

text \<open>Witness of C20: worker 1 gets a new rate and a date in \<open>Suit\<close>, stored as its ISO string.\<close>

theorem update_get_by_id_witness:
  "\<exists>db'. update ''workers'' 1 [(''Rate'', VInt 120), (''Suit'', VDate \<lparr>year = 2024, month = 1, day = 5\<rparr>)] sample_db =
      Inr (Some [(''id'', VInt 1), (''name'', VStr ''Ana''), (''number'', VStr ''555''), (''Rate'', VInt 120),
                 (''Suit'', VStr ''2024-01-05''), (''Jacket'', VNull), (''Sadri'', VNull), (''Others'', VNull)], db') \<and>
    db_ok db' \<and>
    get_by_id ''workers'' 1 db' =
      Inr (Some [(''id'', VInt 1), (''name'', VStr ''Ana''), (''number'', VStr ''555''), (''Rate'', VInt 120),
                 (''Suit'', VStr ''2024-01-05''), (''Jacket'', VNull), (''Sadri'', VNull), (''Others'', VNull)], db')"
proof -
  let ?d = "[(''Rate'', VInt 120), (''Suit'', VDate \<lparr>year = 2024, month = 1, day = 5\<rparr>)]"
  have h1: "db_ok sample_db"
    by (simp add: db_ok_def table_ok_def sample_defs exec_defs)
  have h2: "map_of sample_db ''workers'' = Some sample_workers" by (simp add: sample_db_def)
  have h3: "find_by_id (t_rows sample_workers) (VInt 1) = Some (hd (t_rows sample_workers))"
    by (simp add: sample_workers_def find_by_id_def)
  have h4: "set (map fst ?d) \<subseteq> set (t_cols sample_workers)" by (simp add: sample_workers_def)
  have h5: "''id'' \<notin> set (map fst ?d)" by simp
  have h6: "list_all (\<lambda>kv. json_safe (format_date (snd kv))) ?d" by (simp add: format_date_def)
  have row: "upd_row (format_data ?d) (hd (t_rows sample_workers)) =
      [(''id'', VInt 1), (''name'', VStr ''Ana''), (''number'', VStr ''555''), (''Rate'', VInt 120),
       (''Suit'', VStr ''2024-01-05''), (''Jacket'', VNull), (''Sadri'', VNull), (''Others'', VNull)]"
    by (simp add: sample_workers_def upd_row_def format_data_def format_date_def isoformat_eval)
  show ?thesis using update_get_by_id [OF h1 h2 h3 h4 h5 h6] row by auto
qed

text \<open>Witness of C21: updating worker 9999, which does not exist.\<close>

theorem update_missing_none_witness:
  "update ''workers'' 9999 [(''Rate'', VInt 1)] sample_db = Inr (None, sample_db)"
proof -
  have h1: "db_ok sample_db"
    by (simp add: db_ok_def table_ok_def sample_defs exec_defs)
  have h2: "map_of sample_db ''workers'' = Some sample_workers" by (simp add: sample_db_def)
  have h3: "VInt 9999 \<notin> set (map (\<lambda>r. dict_get r ''id'') (t_rows sample_workers))"
    by (simp add: sample_workers_def)
  have h4: "set (map fst [(''Rate'', VInt 1)]) \<subseteq> set (t_cols sample_workers)" by (simp add: sample_workers_def)
  have h5: "''id'' \<notin> set (map fst [(''Rate'', VInt 1)])" by simp
  have h6: "list_all (\<lambda>kv. json_safe (format_date (snd kv))) [(''Rate'', VInt 1)]" by (simp add: format_date_def)
  show ?thesis using update_missing_none [OF h1 h2 h3 h4 h5 h6] .
qed

text \<open>Witness of C22: unlinking worker 1 from its orders.\<close>

theorem remove_related_records_conjunctive_witness:
  "\<exists>jtbl'. remove_related_records ''worker_orders'' [(''worker_id'', VInt 1)] sample_db =
      Inr (True, AList.update ''worker_orders'' jtbl' sample_db) \<and> t_rows jtbl' = []"
proof -
  have h1: "map_of sample_db ''worker_orders'' = Some sample_links" by (simp add: sample_db_def)
  have h2: "set (map fst [(''worker_id'', VInt 1)]) \<subseteq> set (t_cols sample_links)"
    by (simp add: sample_links_def)
  have m: "matching_rows (t_rows sample_links) [(''worker_id'', VInt 1)] = t_rows sample_links"
    by (simp add: matching_rows_def sample_links_def)
  show ?thesis
    using remove_related_records_conjunctive [OF h1 h2] unfolding m
    by (auto simp: sample_links_def)
qed


text \<open>Witness of C24: linking worker 1 to an order with a \<open>date\<close> value.\<close>

theorem add_related_records_date_error_witness:
  "add_related_records ''worker_orders''
     [[(''worker_id'', VInt 1), (''order_no'', VDate \<lparr>year = 2024, month = 1, day = 5\<rparr>)]] sample_db =
   Inl (TypeError ''Object of type date is not JSON serializable'')"
proof -
  have h: "\<not> list_all dict_safe [[(''worker_id'', VInt 1), (''order_no'', VDate \<lparr>year = 2024, month = 1, day = 5\<rparr>)]]"
    by simp
  show ?thesis using add_related_records_date_error [OF h]
    by (simp add: unsafe_error_def not_serializable_def)
qed

text \<open>Witness of C25: the worker linked to order row 1 of the sample junction table.\<close>

theorem get_related_records_embed_witness:
  "get_related_records ''workers'' ''worker_orders'' ''worker_id'' 1 sample_db =
     Inr ([[(''workers'', VObj (hd (t_rows sample_workers)))]], sample_db)"
proof -
  have h1: "map_of sample_db ''worker_orders'' = Some sample_links" by (simp add: sample_db_def)
  have h2: "''worker_id'' \<in> set (t_cols sample_links)" by (simp add: sample_links_def)
  have h3: "filter (\<lambda>x. snd x = ''workers'') (t_fks sample_links) = [(''worker_id'', ''workers'')]"
    by (simp add: sample_links_def)
  have h4: "map_of sample_db ''workers'' = Some sample_workers" by (simp add: sample_db_def)
  show ?thesis using get_related_records_embed [OF h1 h2 h3 h4]
    by (simp add: sample_links_def sample_workers_def find_by_id_def)
qed

text \<open>Witness of C26: the sum of all sample expenses, an \<open>int\<close>.\<close>

theorem sum_column_ints_witness:
  "sum_column ''Daily_Expenses'' ''amount'' (Some []) sample_db = Inr (VInt 100, sample_db)"
proof -
  have h1: "map_of sample_db ''Daily_Expenses'' = Some sample_daily" by (simp add: sample_db_def)
  have h2: "parse_select ''amount'' = SelCol ''amount''" by (simp add: parse_select_def suffix_def)
  have h3: "''amount'' \<in> set (t_cols sample_daily)" by (simp add: sample_daily_def)
  have h4: "set (map fst ([] :: dict)) \<subseteq> set (t_cols sample_daily)" by simp
  have m: "matching_rows (t_rows sample_daily) [] = t_rows sample_daily" by (simp add: matching_rows_def)
  have h5: "matching_rows (t_rows sample_daily) [] \<noteq> []" unfolding m by (simp add: sample_daily_def)
  have h6: "list_all (\<lambda>r. int_cell (dict_get r ''amount'') \<noteq> None) (matching_rows (t_rows sample_daily) [])"
    unfolding m by (simp add: sample_daily_def)
  show ?thesis using sum_column_ints [OF h1 h2 h3 h4 h5 h6] unfolding m by (simp add: sample_daily_def)
qed

text \<open>Witness of C17: the term \<open>5_5\<close> on the sample workers' numbers returns the worker
  whose number is \<open>555\<close>, which does not contain \<open>5_5\<close>.\<close>

theorem search_underscore_any_char_witness:
  "search ''workers'' ''number'' ''5_5'' sample_db = Inr (t_rows sample_workers, sample_db) \<and>
   \<not> sublist ''5_5'' ''555''"
proof -
  have h1: "map_of sample_db ''workers'' = Some sample_workers" by (simp add: sample_db_def)
  have h2: "''number'' \<in> set (t_cols sample_workers)" by (simp add: sample_workers_def)
  have h3: "list_all (\<lambda>r. text_cell (dict_get r ''number'')) (t_rows sample_workers)"
    by (simp add: sample_workers_def)
  have h4: "\<forall>ch \<in> set ''5''. \<not> like_special ch" by (simp add: like_special_def)
  have low: "lower ''5'' = ''5''" "lower ''555'' = ''555''" by (simp_all add: lower_def lower_char_def)
  have ex: "\<exists>x. sublist (''5'' @ x # ''5'') ''555''" by (rule exI [of _ "CHR ''5''"]) simp
  have "search ''workers'' ''number'' (''5'' @ CHR ''_'' # ''5'') sample_db = Inr (t_rows sample_workers, sample_db)"
    using search_underscore_any_char [OF h1 h2 h3 h4 h4] ex
    by (simp add: sample_workers_def low del: append.simps)
  moreover have "\<not> sublist ''5_5'' ''555''" by (simp add: sublist_code)
  ultimately show ?thesis by simp
qed

text \<open>Witness of C19: \<open>2024-02-29\<close> is a date, \<open>2023-02-29\<close> raises \<open>ValueError\<close>.\<close>

theorem parse_date_iso_date_witness:
  "parse_date (VStr ''2024-02-29'') = Inr (VDate \<lparr>year = 2024, month = 2, day = 29\<rparr>) \<and>
   parse_date (VStr ''2023-02-29'') = Inl (ValueError ''day is out of range for month'')"
proof -
  have b: "(2024::nat) < 10000" "(2023::nat) < 10000" "(2::nat) < 100" "(29::nat) < 100" by simp_all
  have s1: "pad_dec 4 2024 @ ''-'' @ pad_dec 2 2 @ ''-'' @ pad_dec 2 29 = ''2024-02-29''"
    by (simp add: isoformat_eval)
  have s2: "pad_dec 4 2023 @ ''-'' @ pad_dec 2 2 @ ''-'' @ pad_dec 2 29 = ''2023-02-29''"
    by (simp add: isoformat_eval)
  have c1: "check_date 2024 2 29 = None" by (simp add: check_date_def days_in_month_def is_leap_def)
  have c2: "check_date 2023 2 29 = Some ''day is out of range for month''"
    by (simp add: check_date_def days_in_month_def is_leap_def)
  show ?thesis
    using parse_date_iso_date [OF b(1) b(3) b(4)] parse_date_iso_date [OF b(2) b(3) b(4)]
    unfolding s1 s2 c1 c2 by simp
qed

text \<open>Witness of C23: linking worker 1 to two more orders in one call.\<close>

theorem add_related_records_inserts_witness:
  "add_related_records ''worker_orders''
     [[(''worker_id'', VInt 1), (''order_no'', VStr ''B2'')], [(''worker_id'', VInt 1), (''order_no'', VStr ''B3'')]]
     sample_db =
   Inr (True, AList.update ''worker_orders''
     (sample_links\<lparr>t_rows := t_rows sample_links @
        [[(''id'', VInt 2), (''worker_id'', VInt 1), (''order_no'', VStr ''B2'')],
         [(''id'', VInt 3), (''worker_id'', VInt 1), (''order_no'', VStr ''B3'')]], t_next := 4\<rparr>) sample_db)"
proof -
  let ?data = "[[(''worker_id'', VInt 1), (''order_no'', VStr ''B2'')], [(''worker_id'', VInt 1), (''order_no'', VStr ''B3'')]]"
  have h1: "db_ok sample_db" by (simp add: db_ok_def table_ok_def sample_defs exec_defs)
  have h2: "map_of sample_db ''worker_orders'' = Some sample_links" by (simp add: sample_db_def)
  have h3: "ids_below sample_links" by (simp add: ids_below_def sample_links_def)
  have h4: "?data \<noteq> []" by simp
  have h5: "list_all (\<lambda>d. set (map fst d) = set (map fst (hd ?data))) ?data" by simp
  have h6: "\<forall>d \<in> set ?data. set (map fst d) \<subseteq> set (t_cols sample_links)" by (simp add: sample_links_def)
  have h7: "no_id ?data" by simp
  have h8: "list_all dict_safe ?data" by simp
  show ?thesis
    using add_related_records_inserts [OF h1 h2 h3 h4 h5 h6 h7 h8]
    by (simp add: sample_links_def full_row_def dict_get_def)
qed

end
