(* ===== verification/Workers.thy ===== *)
theory Workers
  imports Repository
begin

text \<open>
  The HTTP handlers of \<open>src/back/route9_supabase.py\<close> for the \<open>workers\<close> table:
  \<open>GET /api/workers\<close>, \<open>POST /api/workers\<close> and \<open>DELETE /api/workers/<int:id>\<close>.
  A handler takes what Flask hands it (the parsed JSON body, or the exception
  \<open>request.get_json()\<close> raised; the path's id, a non-negative integer) and the store,
  and returns the status code, the JSON body and the store after it. Exceptions raised
  inside the \<open>try\<close> block become a 500 response with \<open>{'error': str(e)}\<close>, and the
  store keeps whatever the handler wrote before the exception.
\<close>

record response =
  status :: nat
  body :: pyval

definition error_response :: "nat \<Rightarrow> string \<Rightarrow> response" where
  "error_response code m = \<lparr>status = code, body = VObj [(''error'', VStr m)]\<rparr>"

text \<open>\<open>except Exception as e: return jsonify({'error': str(e)}), 500\<close>\<close>

definition exn_response :: "exn \<Rightarrow> response" where
  "exn_response e = error_response 500 (exn_str e)"

text \<open>The fields a worker record has (specification, section 6).\<close>

abbreviation worker_fields :: "string list" where
  "worker_fields \<equiv> [''name'', ''number'', ''Rate'', ''Suit'', ''Jacket'', ''Sadri'', ''Others'']"

section \<open>GET /api/workers\<close>

definition get_workers_route :: "db \<Rightarrow> response \<times> db" where
  "get_workers_route db =
     (case get_all ''workers'' None db of
        Inl e \<Rightarrow> (exn_response e, db)
      | Inr (ws, db') \<Rightarrow> (\<lparr>status = 200, body = VList (map VObj ws)\<rparr>, db'))"

section \<open>POST /api/workers\<close>

text \<open>The record the handler builds from one item of the body (lines 47 to 55).\<close>

definition worker_dict :: "dict \<Rightarrow> dict" where
  "worker_dict w =
     [(''name'', dict_get w ''name''), (''number'', dict_get w ''number''),
      (''Rate'', dict_get w ''Rate''), (''Suit'', dict_get w ''Suit''),
      (''Jacket'', dict_get w ''Jacket''), (''Sadri'', dict_get w ''Sadri''),
      (''Others'', dict_get w ''Others'')]"

text \<open>How the loop over the body ends: it runs to the end with the workers added, or
  returns a response from inside (the 400 of a missing field).\<close>

datatype loop_exit = Finished "row list" | Returned response

text \<open>
  The \<open>for worker_data in data\<close> loop: the first \<open>.get\<close> on an item that is not a
  dict raises \<open>AttributeError\<close>; an item without a truthy \<open>name\<close> and \<open>number\<close>
  returns 400 at once; otherwise the worker is created, and appended when the store
  returned a row. The store is threaded through, so the writes of earlier items persist
  when a later item fails.
\<close>

fun add_workers_loop :: "pyval list \<Rightarrow> row list \<Rightarrow> db \<Rightarrow> (exn + loop_exit) \<times> db" where
  "add_workers_loop [] added db = (Inr (Finished added), db)"
| "add_workers_loop (item # items) added db =
     (case item of
        VObj w \<Rightarrow>
          if \<not> truthy (dict_get w ''name'') \<or> \<not> truthy (dict_get w ''number'')
          then (Inr (Returned (error_response 400 ''Name and number are required fields for all workers'')), db)
          else
            (case create ''workers'' (worker_dict w) db of
               Inl e \<Rightarrow> (Inl e, db)
             | Inr (new_worker, db') \<Rightarrow>
                 add_workers_loop items
                   (case new_worker of Some r \<Rightarrow> if truthy (VObj r) then added @ [r] else added
                    | None \<Rightarrow> added) db')
      | _ \<Rightarrow> (Inl (get_error item), db))"

fun is_list :: "pyval \<Rightarrow> bool" where
  "is_list (VList _) = True"
| "is_list _ = False"

definition add_worker :: "exn + pyval \<Rightarrow> db \<Rightarrow> response \<times> db" where
  "add_worker req db =
     (case req of
        Inl e \<Rightarrow> (exn_response e, db)
      | Inr data \<Rightarrow>
          (case data of
             VList items \<Rightarrow>
               (case add_workers_loop items [] db of
                  (Inl e, db') \<Rightarrow> (exn_response e, db')
                | (Inr (Returned r), db') \<Rightarrow> (r, db')
                | (Inr (Finished added), db') \<Rightarrow>
                    (\<lparr>status = 201, body = VObj [(''message'', VStr ''Workers added successfully''),
                                                (''workers'', VList (map VObj added))]\<rparr>, db'))
           | _ \<Rightarrow> (error_response 400 ''Invalid input, expected a list of workers'', db)))"

section \<open>DELETE /api/workers/<int:id>\<close>

definition delete_worker :: "nat \<Rightarrow> db \<Rightarrow> response \<times> db" where
  "delete_worker i db =
     (case get_by_id ''workers'' (int i) db of
        Inl e \<Rightarrow> (exn_response e, db)
      | Inr (worker, db1) \<Rightarrow>
          (case worker of
             None \<Rightarrow> (error_response 404 ''Worker not found'', db1)
           | Some w \<Rightarrow>
               if \<not> truthy (VObj w) then (error_response 404 ''Worker not found'', db1)
               else
                 (case delete ''workers'' (int i) db1 of
                    Inl e \<Rightarrow> (exn_response e, db1)
                  | Inr (success, db2) \<Rightarrow>
                      if success then
                        (case map_of w ''name'' of
                           None \<Rightarrow> (exn_response (KeyError ''name''), db2)
                         | Some n \<Rightarrow>
                             (\<lparr>status = 200, body = VObj [(''message'',
                                VStr (''Worker '' @ py_str n @ '' removed successfully''))]\<rparr>, db2))
                      else (error_response 500 ''Failed to delete worker'', db2))))"

section \<open>Lemmas\<close>

lemma worker_dict_keys [simp]: "map fst (worker_dict w) = worker_fields"
  by (simp add: worker_dict_def)

lemma worker_dict_safe:
  "dict_safe w \<Longrightarrow> list_all (\<lambda>kv. json_safe (format_date (snd kv))) (worker_dict w)"
  by (simp add: worker_dict_def json_safe_format_date dict_get_safe)

text \<open>
  C6. POST /api/workers with a list of one object carrying a truthy \<open>name\<close> and
  \<open>number\<close> (the specification's \<open>[{"name":"Ana","number":"555"}]\<close>), on a
  well-formed store whose \<open>workers\<close> table has the worker columns, answers 201 with a
  \<open>workers\<close> array of exactly one record holding that name and number under a fresh
  id, and leaves a well-formed store.
\<close>

theorem add_worker_single:
  assumes ok: "db_ok db" and tbl: "map_of db ''workers'' = Some tbl"
    and cols: "set worker_fields \<subseteq> set (t_cols tbl)"
    and fresh: "VInt (t_next tbl) \<notin> set (map (\<lambda>r. dict_get r ''id'') (t_rows tbl))"
    and safe: "dict_safe w"
    and given: "truthy (dict_get w ''name'')" "truthy (dict_get w ''number'')"
  shows "\<exists>r db'. add_worker (Inr (VList [VObj w])) db =
            (\<lparr>status = 201, body = VObj [(''message'', VStr ''Workers added successfully''),
                                          (''workers'', VList [VObj r])]\<rparr>, db') \<and>
          dict_get r ''name'' = dict_get w ''name'' \<and> dict_get r ''number'' = dict_get w ''number'' \<and>
          dict_get r ''id'' = VInt (t_next tbl) \<and> db_ok db'"
proof -
  let ?d = "worker_dict w"
  let ?r = "full_row (t_cols tbl) (t_next tbl) (format_data ?d)"
  let ?db' = "AList.update ''workers'' (tbl\<lparr>t_rows := t_rows tbl @ [?r], t_next := t_next tbl + 1\<rparr>) db"
  have tok: "table_ok tbl" using ok tbl by (rule db_ok_lookup)
  have keys: "set (map fst ?d) \<subseteq> set (t_cols tbl)" "''id'' \<notin> set (map fst ?d)"
    using cols by simp_all
  have cr: "create ''workers'' ?d db = Inr (Some ?r, ?db')"
    using create_eq [OF ok tbl keys worker_dict_safe [OF safe] fresh] .
  have ok': "db_ok ?db'" using ok cr by (rule create_db_ok)
  have "''id'' \<in> set (t_cols tbl)" using tok by (simp add: table_ok_def)
  then have ne: "?r \<noteq> []" by (auto simp: full_row_def)
  have f: "\<forall>k \<in> set (t_cols tbl). k \<noteq> ''id'' \<longrightarrow> dict_get ?r k = format_date (dict_get ?d k)"
    using full_row_fields [OF keys(2)] .
  have "dict_get ?r ''name'' = dict_get w ''name''" "dict_get ?r ''number'' = dict_get w ''number''"
    using f cols dict_get_safe [OF safe] by (simp_all add: worker_dict_def json_safe_format_date)
  moreover have "dict_get ?r ''id'' = VInt (t_next tbl)"
    using tok keys by (simp add: dict_get_full_row table_ok_def del: set_map)
  moreover have "add_worker (Inr (VList [VObj w])) db =
      (\<lparr>status = 201, body = VObj [(''message'', VStr ''Workers added successfully''),
                                  (''workers'', VList [VObj ?r])]\<rparr>, ?db')"
    using given cr ne by (simp add: add_worker_def)
  ultimately show ?thesis using ok' by blast
qed


text \<open>
  C7. POST /api/workers with a body that is not a JSON array answers 400 with an
  \<open>error\<close> field and does not touch the store.
\<close>

theorem add_worker_not_list:
  "\<not> is_list data \<Longrightarrow>
   add_worker (Inr data) db = (error_response 400 ''Invalid input, expected a list of workers'', db)"
  by (cases data) (simp_all add: add_worker_def)

text \<open>
  C8. POST /api/workers whose first item lacks a truthy \<open>name\<close> or
  \<open>number\<close> answers 400 before any insert: the store is unchanged.
\<close>

theorem add_worker_missing_field:
  "\<not> truthy (dict_get w ''name'') \<or> \<not> truthy (dict_get w ''number'') \<Longrightarrow>
   add_worker (Inr (VList (VObj w # items))) db =
     (error_response 400 ''Name and number are required fields for all workers'', db)"
  by (auto simp: add_worker_def)

text \<open>
  C9. DELETE /api/workers/<id> for an id no worker has answers 404
  \<open>Worker not found\<close> and leaves the store unchanged.
\<close>

theorem delete_worker_missing:
  assumes "map_of db ''workers'' = Some tbl" "''id'' \<in> set (t_cols tbl)"
    and "VInt (int i) \<notin> set (map (\<lambda>r. dict_get r ''id'') (t_rows tbl))"
  shows "delete_worker i db = (error_response 404 ''Worker not found'', db)"
  using get_by_id_missing [OF assms] by (simp add: delete_worker_def)

text \<open>
  C10. Validation is interleaved with the inserts: POST /api/workers with a valid
  first item and a second item without a name answers 400, yet the first worker has
  already been inserted and stays in the store (no atomicity, no rollback).
\<close>

theorem add_worker_partial_batch:
  assumes ok: "db_ok db" and tbl: "map_of db ''workers'' = Some tbl"
    and cols: "set worker_fields \<subseteq> set (t_cols tbl)"
    and fresh: "VInt (t_next tbl) \<notin> set (map (\<lambda>r. dict_get r ''id'') (t_rows tbl))"
    and safe: "dict_safe w1"
    and given: "truthy (dict_get w1 ''name'')" "truthy (dict_get w1 ''number'')"
    and missing: "\<not> truthy (dict_get w2 ''name'')"
  shows "\<exists>db' r. add_worker (Inr (VList [VObj w1, VObj w2])) db =
            (error_response 400 ''Name and number are required fields for all workers'', db') \<and>
          get_by_id ''workers'' (t_next tbl) db' = Inr (Some r, db') \<and>
          dict_get r ''name'' = dict_get w1 ''name'' \<and> db' \<noteq> db"
proof -
  let ?d = "worker_dict w1"
  let ?r = "full_row (t_cols tbl) (t_next tbl) (format_data ?d)"
  let ?tbl' = "tbl\<lparr>t_rows := t_rows tbl @ [?r], t_next := t_next tbl + 1\<rparr>"
  let ?db' = "AList.update ''workers'' ?tbl' db"
  have tok: "table_ok tbl" using ok tbl by (rule db_ok_lookup)
  have keys: "set (map fst ?d) \<subseteq> set (t_cols tbl)" "''id'' \<notin> set (map fst ?d)"
    using cols by simp_all
  have cr: "create ''workers'' ?d db = Inr (Some ?r, ?db')"
    using create_eq [OF ok tbl keys worker_dict_safe [OF safe] fresh] .
  have rid: "dict_get ?r ''id'' = VInt (t_next tbl)"
    using tok keys by (simp add: dict_get_full_row table_ok_def del: set_map)
  have "''id'' \<in> set (t_cols tbl)" using tok by (simp add: table_ok_def)
  then have ne: "?r \<noteq> []" by (auto simp: full_row_def)
  have resp: "add_worker (Inr (VList [VObj w1, VObj w2])) db =
      (error_response 400 ''Name and number are required fields for all workers'', ?db')"
    using given cr ne missing by (simp add: add_worker_def)
  have get: "get_by_id ''workers'' (t_next tbl) ?db' = Inr (Some ?r, ?db')"
    using get_by_id_after_insert [OF tok fresh rid] .
  have "dict_get ?r ''name'' = dict_get w1 ''name''"
    using full_row_fields [OF keys(2)] cols dict_get_safe [OF safe]
    by (simp add: worker_dict_def json_safe_format_date)
  moreover have "?db' \<noteq> db"
  proof
    assume "?db' = db"
    then have "map_of ?db' ''workers'' = Some tbl" using tbl by simp
    then have "?tbl' = tbl" by (simp add: update_conv')
    then have "t_next ?tbl' = t_next tbl" by simp
    then show False by simp
  qed
  ultimately show ?thesis using resp get by blast
qed

text \<open>
  C11. DELETE /api/workers/<id> for an existing worker answers 200 with the message
  \<open>Worker <name> removed successfully\<close> and removes exactly the rows with that id.
\<close>

theorem delete_worker_existing:
  assumes tbl: "map_of db ''workers'' = Some tbl" "''id'' \<in> set (t_cols tbl)"
    and found: "find_by_id (t_rows tbl) (VInt (int i)) = Some w"
    and name: "map_of w ''name'' = Some n"
  shows "delete_worker i db =
     (\<lparr>status = 200, body = VObj [(''message'', VStr (''Worker '' @ py_str n @ '' removed successfully''))]\<rparr>,
      AList.update ''workers''
        (tbl\<lparr>t_rows := filter (\<lambda>r. dict_get r ''id'' \<noteq> VInt (int i)) (t_rows tbl)\<rparr>) db)"
proof -
  have w: "w \<in> set (t_rows tbl)" "dict_get w ''id'' = VInt (int i)"
    using found by (auto simp: find_by_id_def find_Some_iff)
  then have "filter (\<lambda>r. dict_get r ''id'' = VInt (int i)) (t_rows tbl) \<noteq> []"
    by (auto simp: filter_empty_conv)
  moreover have "w \<noteq> []" using name by auto
  ultimately show ?thesis
    using get_by_id_eq [OF tbl, of "int i"] found name delete_eq [OF tbl, of "int i"]
    by (simp add: delete_worker_def)
qed

text \<open>
  C12. GET /api/workers answers 200 with every row of the \<open>workers\<close> table, in
  storage order, and leaves the store unchanged.
\<close>

theorem get_workers_route_rows:
  "map_of db ''workers'' = Some tbl \<Longrightarrow>
   get_workers_route db = (\<lparr>status = 200, body = VList (map VObj (t_rows tbl))\<rparr>, db)"
  by (simp add: get_workers_route_def get_all_def sb_select_def execute_select_star filter_error_def
      row_matches_def)

text \<open>
  C13. POST /api/workers with an array item that is not a JSON object answers 500:
  the handler calls \<open>.get\<close> on it, and the \<open>AttributeError\<close> is caught as a
  store failure would be; the store is unchanged.
\<close>

theorem add_worker_not_dict:
  "\<not> is_obj item \<Longrightarrow>
   add_worker (Inr (VList (item # items))) db = (exn_response (get_error item), db)"
  by (cases item) (simp_all add: add_worker_def)

lemma worker_rows_no_id: "no_id (map (\<lambda>w. format_data (worker_dict w)) ws)"
  by (induction ws) (simp_all del: set_map)

lemma create_worker_eq:
  assumes ok: "db_ok db" and tbl: "map_of db ''workers'' = Some tbl"
    and cols: "set worker_fields \<subseteq> set (t_cols tbl)" and below: "ids_below tbl" and safe: "dict_safe w"
  shows "create ''workers'' (worker_dict w) db =
    Inr (Some (full_row (t_cols tbl) (t_next tbl) (format_data (worker_dict w))),
         AList.update ''workers''
           (tbl\<lparr>t_rows := t_rows tbl @ fst (new_rows (t_cols tbl) (t_next tbl) [format_data (worker_dict w)]),
                t_next := t_next tbl + int (length [format_data (worker_dict w)])\<rparr>) db)"
proof -
  have fresh: "VInt (t_next tbl) \<notin> set (map (\<lambda>r. dict_get r ''id'') (t_rows tbl))"
    using ids_below_ids [OF below] by auto
  have "''id'' \<notin> set (map fst (worker_dict w))" by simp
  then show ?thesis
    using create_eq [OF ok tbl _ _ worker_dict_safe [OF safe] fresh] cols by simp
qed

text \<open>
  The loop on a batch of valid workers: every item is created in turn, each with the
  next id of the sequence, and the rows the store answers are appended; it ends with
  the same rows and the same store as one insert of all the records would give.
\<close>

lemma add_workers_loop_valid:
  assumes "db_ok db" "map_of db ''workers'' = Some tbl" "set worker_fields \<subseteq> set (t_cols tbl)"
    and "ids_below tbl"
    and "list_all (\<lambda>w. dict_safe w \<and> truthy (dict_get w ''name'') \<and> truthy (dict_get w ''number'')) ws"
  shows "add_workers_loop (map VObj ws) added db =
    (Inr (Finished (added @ fst (new_rows (t_cols tbl) (t_next tbl) (map (\<lambda>w. format_data (worker_dict w)) ws)))),
     AList.update ''workers''
       (tbl\<lparr>t_rows := t_rows tbl @ fst (new_rows (t_cols tbl) (t_next tbl) (map (\<lambda>w. format_data (worker_dict w)) ws)),
            t_next := t_next tbl + int (length ws)\<rparr>) db)"
  using assms
proof (induction ws arbitrary: added db tbl)
  case Nil
  then show ?case by simp
next
  case (Cons w ws)
  let ?d = "format_data (worker_dict w)"
  let ?r = "full_row (t_cols tbl) (t_next tbl) ?d"
  let ?tbl1 = "tbl\<lparr>t_rows := t_rows tbl @ fst (new_rows (t_cols tbl) (t_next tbl) [?d]),
                   t_next := t_next tbl + int (length [?d])\<rparr>"
  have tok: "table_ok tbl" using Cons.prems(1,2) by (rule db_ok_lookup)
  then have idc: "''id'' \<in> set (t_cols tbl)" by (simp add: table_ok_def)
  have cr: "create ''workers'' (worker_dict w) db = Inr (Some ?r, AList.update ''workers'' ?tbl1 db)"
    using create_worker_eq [OF Cons.prems(1-4)] Cons.prems(5) by simp
  have ok1: "db_ok (AList.update ''workers'' ?tbl1 db)" using Cons.prems(1) cr by (rule create_db_ok)
  have below1: "ids_below ?tbl1"
    using ids_below_insert [OF Cons.prems(4) worker_rows_no_id [of "[w]"] idc] by simp
  have "map_of (AList.update ''workers'' ?tbl1 db) ''workers'' = Some ?tbl1" by (simp add: update_conv')
  note IH = Cons.IH [OF ok1 this _ below1]
  have "?r \<noteq> []" using idc by (auto simp: full_row_def)
  then show ?case
    using Cons.prems(3,5) cr IH by (simp add: add.assoc del: new_rows.simps(2))
qed

lemma add_worker_valid_eq:
  assumes "db_ok db" "map_of db ''workers'' = Some tbl" "set worker_fields \<subseteq> set (t_cols tbl)"
    and "ids_below tbl"
    and "list_all (\<lambda>w. dict_safe w \<and> truthy (dict_get w ''name'') \<and> truthy (dict_get w ''number'')) ws"
  shows "add_worker (Inr (VList (map VObj ws))) db =
    (\<lparr>status = 201, body = VObj [(''message'', VStr ''Workers added successfully''),
       (''workers'', VList (map VObj (fst (new_rows (t_cols tbl) (t_next tbl) (map (\<lambda>w. format_data (worker_dict w)) ws)))))]\<rparr>,
     AList.update ''workers''
       (tbl\<lparr>t_rows := t_rows tbl @ fst (new_rows (t_cols tbl) (t_next tbl) (map (\<lambda>w. format_data (worker_dict w)) ws)),
            t_next := t_next tbl + int (length ws)\<rparr>) db)"
  using add_workers_loop_valid [OF assms, of "[]"] by (simp add: add_worker_def)

lemma new_rows_field:
  "k \<in> set cols \<Longrightarrow> k \<noteq> ''id'' \<Longrightarrow>
   map (\<lambda>r. dict_get r k) (fst (new_rows cols n ds)) = map (\<lambda>d. dict_get d k) ds"
  by (induction ds arbitrary: n) (auto simp: dict_get_full_row dict_get_absent Let_def case_prod_unfold)

lemma worker_field_kept:
  "dict_safe w \<Longrightarrow> k \<in> set worker_fields \<Longrightarrow> dict_get (format_data (worker_dict w)) k = dict_get w k"
  by (auto simp: dict_get_format_data worker_dict_def json_safe_format_date dict_get_safe)

text \<open>
  C14. POST /api/workers with a batch of valid workers (each an object with a truthy
  \<open>name\<close> and \<open>number\<close> and JSON values), on a well-formed store whose ids all
  came from the identity sequence, answers 201 with one record per item, in the order of
  the batch, with consecutive fresh ids and the items' names and numbers, and the
  \<open>workers\<close> table ends with exactly these records.
\<close>

theorem add_worker_batch:
  assumes "db_ok db" "map_of db ''workers'' = Some tbl" "set worker_fields \<subseteq> set (t_cols tbl)"
    and "ids_below tbl"
    and "list_all (\<lambda>w. dict_safe w \<and> truthy (dict_get w ''name'') \<and> truthy (dict_get w ''number'')) ws"
  shows "\<exists>new db'. add_worker (Inr (VList (map VObj ws))) db =
       (\<lparr>status = 201, body = VObj [(''message'', VStr ''Workers added successfully''),
                                    (''workers'', VList (map VObj new))]\<rparr>, db') \<and>
     map_of db' ''workers'' = Some (tbl\<lparr>t_rows := t_rows tbl @ new, t_next := t_next tbl + int (length ws)\<rparr>) \<and>
     map (\<lambda>r. dict_get r ''id'') new = map (\<lambda>k. VInt (t_next tbl + int k)) [0..<length ws] \<and>
     map (\<lambda>r. dict_get r ''name'') new = map (\<lambda>w. dict_get w ''name'') ws \<and>
     map (\<lambda>r. dict_get r ''number'') new = map (\<lambda>w. dict_get w ''number'') ws"
proof -
  let ?ds = "map (\<lambda>w. format_data (worker_dict w)) ws"
  let ?new = "fst (new_rows (t_cols tbl) (t_next tbl) ?ds)"
  have tok: "table_ok tbl" using assms(1,2) by (rule db_ok_lookup)
  then have idc: "''id'' \<in> set (t_cols tbl)" by (simp add: table_ok_def)
  have safe: "\<forall>w \<in> set ws. dict_safe w" using assms(5) by (simp add: list_all_iff)
  have "map (\<lambda>r. dict_get r ''id'') ?new = map (\<lambda>k. VInt (t_next tbl + int k)) [0..<length ws]"
    using new_rows_ids [OF worker_rows_no_id idc] by simp
  moreover have fld: "map (\<lambda>r. dict_get r k) ?new = map (\<lambda>w. dict_get w k) ws"
    if "k \<in> set worker_fields" for k
    using that assms(3) safe new_rows_field [of k "t_cols tbl" "t_next tbl" ?ds]
    by (auto simp: worker_field_kept)
  moreover have "map (\<lambda>r. dict_get r ''name'') ?new = map (\<lambda>w. dict_get w ''name'') ws"
    by (rule fld) simp
  moreover have "map (\<lambda>r. dict_get r ''number'') ?new = map (\<lambda>w. dict_get w ''number'') ws"
    by (rule fld) simp
  ultimately show ?thesis
    using add_worker_valid_eq [OF assms]
    by (intro exI [of _ ?new] exI [of _ "AList.update ''workers''
          (tbl\<lparr>t_rows := t_rows tbl @ ?new, t_next := t_next tbl + int (length ws)\<rparr>) db"])
      (simp add: update_conv')
qed

section \<open>Witnesses\<close>

text \<open>Facts about the sample store the witnesses share.\<close>

lemma sample_workers_facts:
  "db_ok sample_db" "map_of sample_db ''workers'' = Some sample_workers"
  "set worker_fields \<subseteq> set (t_cols sample_workers)" "''id'' \<in> set (t_cols sample_workers)"
  "VInt (t_next sample_workers) \<notin> set (map (\<lambda>r. dict_get r ''id'') (t_rows sample_workers))"
  "t_next sample_workers = 2"
  by (simp_all add: db_ok_def table_ok_def sample_defs exec_defs)

text \<open>Witness of C6: the specification's example body.\<close>

theorem add_worker_single_witness:
  "\<exists>r db'. add_worker (Inr (VList [VObj [(''name'', VStr ''Ana''), (''number'', VStr ''555'')]])) sample_db =
     (\<lparr>status = 201, body = VObj [(''message'', VStr ''Workers added successfully''),
                                 (''workers'', VList [VObj r])]\<rparr>, db') \<and>
     dict_get r ''name'' = VStr ''Ana'' \<and> dict_get r ''number'' = VStr ''555'' \<and>
     dict_get r ''id'' = VInt 2 \<and> db_ok db'"
proof -
  have s: "dict_safe [(''name'', VStr ''Ana''), (''number'', VStr ''555'')]" by simp
  have g: "truthy (dict_get [(''name'', VStr ''Ana''), (''number'', VStr ''555'')] ''name'')"
    "truthy (dict_get [(''name'', VStr ''Ana''), (''number'', VStr ''555'')] ''number'')" by simp_all
  show ?thesis
    using add_worker_single [OF sample_workers_facts(1,2,3,5) s g] sample_workers_facts(6) by simp
qed

text \<open>Witness of C7: the specification's body \<open>{"name":"Ana"}\<close>.\<close>

theorem add_worker_not_list_witness:
  "add_worker (Inr (VObj [(''name'', VStr ''Ana'')])) sample_db =
     (error_response 400 ''Invalid input, expected a list of workers'', sample_db)"
  using add_worker_not_list [of "VObj [(''name'', VStr ''Ana'')]" sample_db] by simp

text \<open>Witness of C8: the specification's body \<open>[{"number":"555"}]\<close>.\<close>

theorem add_worker_missing_field_witness:
  "add_worker (Inr (VList [VObj [(''number'', VStr ''555'')]])) sample_db =
     (error_response 400 ''Name and number are required fields for all workers'', sample_db)"
  using add_worker_missing_field [of "[(''number'', VStr ''555'')]" "[]" sample_db] by simp

text \<open>Witness of C9: the specification's \<open>DELETE /api/workers/9999\<close>.\<close>

theorem delete_worker_missing_witness:
  "delete_worker 9999 sample_db = (error_response 404 ''Worker not found'', sample_db)"
proof -
  have "VInt (int 9999) \<notin> set (map (\<lambda>r. dict_get r ''id'') (t_rows sample_workers))"
    by (simp add: sample_workers_def)
  then show ?thesis using delete_worker_missing [OF sample_workers_facts(2,4)] by simp
qed

text \<open>Witness of C10: a valid worker followed by one without a name.\<close>

theorem add_worker_partial_batch_witness:
  "\<exists>db' r. add_worker (Inr (VList [VObj [(''name'', VStr ''Bob''), (''number'', VStr ''777'')],
                                   VObj [(''number'', VStr ''555'')]])) sample_db =
      (error_response 400 ''Name and number are required fields for all workers'', db') \<and>
    get_by_id ''workers'' 2 db' = Inr (Some r, db') \<and> dict_get r ''name'' = VStr ''Bob'' \<and>
    db' \<noteq> sample_db"
proof -
  have s: "dict_safe [(''name'', VStr ''Bob''), (''number'', VStr ''777'')]" by simp
  have g: "truthy (dict_get [(''name'', VStr ''Bob''), (''number'', VStr ''777'')] ''name'')"
    "truthy (dict_get [(''name'', VStr ''Bob''), (''number'', VStr ''777'')] ''number'')" by simp_all
  have m: "\<not> truthy (dict_get [(''number'', VStr ''555'')] ''name'')" by simp
  show ?thesis
    using add_worker_partial_batch [OF sample_workers_facts(1,2,3,5) s g m] sample_workers_facts(6)
    by simp
qed

text \<open>Witness of C11: deleting worker 1, Ana.\<close>

theorem delete_worker_existing_witness:
  "delete_worker 1 sample_db =
     (\<lparr>status = 200, body = VObj [(''message'', VStr ''Worker Ana removed successfully'')]\<rparr>,
      AList.update ''workers''
        (sample_workers\<lparr>t_rows := filter (\<lambda>r. dict_get r ''id'' \<noteq> VInt 1) (t_rows sample_workers)\<rparr>)
        sample_db)"
proof -
  have f: "find_by_id (t_rows sample_workers) (VInt (int 1)) = Some (hd (t_rows sample_workers))"
    by (simp add: sample_workers_def find_by_id_def)
  have n: "map_of (hd (t_rows sample_workers)) ''name'' = Some (VStr ''Ana'')"
    by (simp add: sample_workers_def)
  show ?thesis using delete_worker_existing [OF sample_workers_facts(2,4) f n] by simp
qed

text \<open>Witness of C12: listing the sample workers.\<close>

theorem get_workers_route_rows_witness:
  "get_workers_route sample_db = (\<lparr>status = 200, body = VList (map VObj (t_rows sample_workers))\<rparr>, sample_db)"
  using get_workers_route_rows [OF sample_workers_facts(2)] .

text \<open>Witness of C13: a body \<open>["Ana"]\<close>.\<close>

theorem add_worker_not_dict_witness:
  "add_worker (Inr (VList [VStr ''Ana''])) sample_db = (exn_response (get_error (VStr ''Ana'')), sample_db) \<and>
   status (exn_response (get_error (VStr ''Ana''))) = 500"
  using add_worker_not_dict [of "VStr ''Ana''" "[]" sample_db] by (simp add: exn_response_def error_response_def)

text \<open>Witness of C14: adding workers Bob and Cy to the sample store in one request.\<close>

theorem add_worker_batch_witness:
  "\<exists>new db'. add_worker (Inr (VList (map VObj [[(''name'', VStr ''Bob''), (''number'', VStr ''777'')],
                                               [(''name'', VStr ''Cy''), (''number'', VInt 888)]]))) sample_db =
       (\<lparr>status = 201, body = VObj [(''message'', VStr ''Workers added successfully''),
                                    (''workers'', VList (map VObj new))]\<rparr>, db') \<and>
     map (\<lambda>r. dict_get r ''id'') new = [VInt 2, VInt 3] \<and>
     map (\<lambda>r. dict_get r ''name'') new = [VStr ''Bob'', VStr ''Cy'']"
proof -
  let ?ws = "[[(''name'', VStr ''Bob''), (''number'', VStr ''777'')], [(''name'', VStr ''Cy''), (''number'', VInt 888)]]"
  have h4: "ids_below sample_workers" by (simp add: ids_below_def sample_workers_def)
  have h5: "list_all (\<lambda>w. dict_safe w \<and> truthy (dict_get w ''name'') \<and> truthy (dict_get w ''number'')) ?ws"
    by simp
  show ?thesis
    using add_worker_batch [OF sample_workers_facts(1-3) h4 h5] sample_workers_facts(6) by auto
qed

end
