(* ===== verification/Spec2Isabelle.thy ===== *)
theory Spec2Isabelle
  imports Workers
begin

text \<open>
  \<^bold>\<open>A verification model of the TMS back end: the generic Supabase repository and the
  worker endpoints.\<close>

  \<^bold>\<open>The program.\<close> \<open>src/back/supabase_config.py\<close> defines \<open>SupabaseHelper\<close>, a
  stateless repository over a remote store reached through the \<open>supabase\<close> client:
  \<open>format_date\<close>/\<open>parse_date\<close> (dates as ISO-8601 strings at the boundary),
  \<open>get_all\<close>, \<open>get_by_id\<close>, \<open>create\<close>, \<open>update\<close>, \<open>delete\<close>, \<open>search\<close>,
  \<open>get_by_date_range\<close>, \<open>sum_column\<close>, the junction helpers
  \<open>get_related_records\<close>, \<open>add_related_records\<close>, \<open>remove_related_records\<close>, and
  the convenience functions \<open>get_workers\<close> ... \<open>get_measurements\<close>.
  \<open>src/back/route9_supabase.py\<close> holds the Flask handlers \<open>GET /api/workers\<close>,
  \<open>POST /api/workers\<close> (a loop that validates and creates each worker of a batch) and
  \<open>DELETE /api/workers/<id>\<close>, which call the repository.

  \<^bold>\<open>Theories.\<close>
  \<^item> \<open>Prelude\<close>: decimal printing and parsing (\<open>str(int)\<close>, zero padding), ASCII case
    folding, the byte-wise text order, and lemmas on association lists and digit strings,
    among them that byte order on equal-width digit strings is numeric order.
  \<^item> \<open>Dates\<close>: \<open>date\<close>/\<open>datetime\<close> records, the constructors' range checks with
    CPython's messages, \<open>isoformat\<close>, and the \<open>fromisoformat\<close> grammar of Python 3.7
    to 3.10; round trips and "byte order of ISO dates is date order".
  \<^item> \<open>Values\<close>: Python/JSON values (\<open>pyval\<close>), the exceptions (\<open>exn\<close>),
    truthiness, \<open>str\<close>, \<open>dict.get\<close>, JSON serialisability.
  \<^item> \<open>Like\<close> and \<open>Store\<close>: the backing store, modelled from the specification because
    it is not code of the repository: tables with an identity sequence and foreign keys,
    the query builder (\<open>select\<close>/\<open>insert\<close>/\<open>update\<close>/\<open>delete\<close>, \<open>eq\<close>, \<open>ilike\<close>,
    \<open>gte\<close>, \<open>lte\<close>) and \<open>execute\<close>, which either raises (an \<open>APIError\<close>, or the
    client's \<open>TypeError\<close> on a payload holding a date) and changes nothing, or returns
    the selected or written rows and the new store. \<open>ILIKE\<close> reads \<open>%\<close>, \<open>_\<close>,
    backslash, and \<open>*\<close> for \<open>%\<close>. The invariant \<open>db_ok\<close> (row shape, JSON values,
    unique integer ids) is kept by \<open>execute\<close>; \<open>ids_below\<close> says the identity
    sequence is ahead of every stored id.
  \<^item> \<open>Repository\<close>: one definition per \<open>SupabaseHelper\<close> method, composed from the
    query builder as the Python chains it, returning \<open>Inl\<close> of the exception it lets
    through or \<open>Inr\<close> of its result and the store; with abstract specifications
    (\<open>matching_rows\<close>, \<open>in_date_range\<close>) and the theorems C1 to C4 and C15 to C26.
  \<^item> \<open>Workers\<close>: the three handlers as functions of the parsed body (or the exception
    of \<open>get_json\<close>) and the store, returning status, JSON body and store; the batch
    loop is structural recursion that threads the store, so earlier inserts persist when
    a later item fails; theorems C6 to C14.
  \<^item> This theory: the property that spans the handlers and the repository, C5.

  \<^bold>\<open>What is shown.\<close> Refinement of \<open>get_all\<close>, \<open>search\<close> and
  \<open>get_by_date_range\<close> against their specifications; round trips (\<open>create\<close> then
  \<open>get_by_id\<close>, \<open>update\<close> then \<open>get_by_id\<close>, \<open>parse_date\<close> of \<open>format_date\<close>);
  the error and empty branches (missing ids, no matching rows, \<open>ValueError\<close> of
  \<open>parse_date\<close>, \<open>TypeError\<close> of unformatted dates, 400/404/500 answers); the batch loop
  by induction (a valid batch inserts its records in order, like one multi-row insert) and
  its partial-failure behaviour; POST followed by GET. Each theorem with a hypothesis has a
  closed witness evaluated on the sample store of \<open>Store\<close>.

  \<^bold>\<open>Bounds.\<close> Python integers are unbounded (\<open>int\<close>); dates are bounded by the
  constructor checks (years 1 to 9999), which keeps the ISO fields at fixed width. No
  loop of the code runs unboundedly, so no fuel is needed: every loop is structural
  recursion over the body or a list.

  \<^bold>\<open>Not modelled.\<close> The client configuration (environment variables,
  \<open>create_client\<close>) and Flask's routing and app object, which are plumbing. In the store
  model, \<open>eq\<close> compares values structurally and never raises, whereas the client sends
  \<open>eq.value\<close> as text and the database casts it to the column's type; ranges compare
  ISO text, exact for date columns but not for timestamp columns; floats are exact
  rationals; a delete with no filter removes every row, as the REST layer does without a
  safe-update guard.
\<close>



end
